theory Spec2Isabelle
  imports Main
begin

section \<open>The multi-tenant broker plugin (mosquitto\_multi\_tenant.c)\<close>

text \<open>
  The plugin derives a team from a client's username with a POSIX extended regular
  expression and rewrites client identifiers, topics and topic filters with it.
  Its five callbacks and its initialisation are embedded below as HOL functions.
  What the C code takes from the C library and from the broker (strings, heap blocks,
  \<^verbatim>\<open>regcomp\<close>/\<^verbatim>\<open>regexec\<close>, callback registration) is modelled first.
\<close>

subsection \<open>C strings and heap blocks\<close>

text \<open>
  A value of type \<^typ>\<open>string\<close> stands for a C string that the plugin receives or
  hands back through a \<^verbatim>\<open>char *\<close>: the bytes before the terminator. Such a string
  holds no NUL byte, which \<open>c_string\<close> says. Lengths and sizes (\<^verbatim>\<open>size_t\<close>) are
  natural numbers: the strings of a broker are shorter by far than the range of
  \<^verbatim>\<open>size_t\<close>, so that none of the sums below wraps around.
\<close>

definition NUL :: char where
  "NUL = CHR 0x00"

definition c_string :: "string \<Rightarrow> bool" where
  "c_string s = (NUL \<notin> set s)"

text \<open>
  Undefined behaviour of the C program is an outcome of the model: a function that
  can run into it returns \<open>Inl\<close> of the fault, and \<open>Inr\<close> of its result otherwise.
\<close>

datatype fault =
    Null_pointer_access
  | Out_of_bounds_access
  | Indeterminate_read
  | Uncompiled_regex

definition seq :: "fault + 'a \<Rightarrow> ('a \<Rightarrow> fault + 'b) \<Rightarrow> fault + 'b" where
  "seq m f = (case m of Inl e \<Rightarrow> Inl e | Inr x \<Rightarrow> f x)"

text \<open>
  A heap block under construction is the list of its bytes, exactly as many as were
  requested; a byte that was never written is \<open>None\<close>. A pointer to a block is
  \<open>Some\<close> of it, the null pointer is \<open>None\<close>.

  Whether the broker's allocator serves a request is not decided by the plugin:
  an \<open>allocator\<close> says, for the k-th request of one callback invocation (counted
  from 0 in program order), whether it is served.
\<close>

type_synonym buffer = "char option list"

type_synonym allocator = "nat \<Rightarrow> bool"

definition mosquitto_malloc :: "allocator \<Rightarrow> nat \<Rightarrow> nat \<Rightarrow> buffer option" where
  "mosquitto_malloc mem k n = (if mem k then Some (replicate n None) else None)"

definition mosquitto_calloc :: "allocator \<Rightarrow> nat \<Rightarrow> nat \<Rightarrow> nat \<Rightarrow> buffer option" where
  "mosquitto_calloc mem k nmemb n =
     (if mem k then Some (replicate (nmemb * n) (Some NUL)) else None)"

definition mosquitto_strdup :: "allocator \<Rightarrow> nat \<Rightarrow> string \<Rightarrow> string option" where
  "mosquitto_strdup mem k s = (if mem k then Some s else None)"

text \<open>
  \<^verbatim>\<open>strncpy(dst, src, n)\<close> writes exactly n bytes: the bytes of \<open>src\<close>, then
  NUL bytes when \<open>src\<close> is shorter than n; it writes no terminator when \<open>src\<close> has n
  bytes or more. With n = 0 it touches nothing.
\<close>

definition strncpy :: "buffer option \<Rightarrow> string \<Rightarrow> nat \<Rightarrow> fault + buffer option" where
  "strncpy dst src n =
     (if n = 0 then Inr dst
      else (case dst of
          None \<Rightarrow> Inl Null_pointer_access
        | Some b \<Rightarrow>
            if n \<le> length b
            then Inr (Some (map Some (take n src @ replicate (n - length src) NUL) @ drop n b))
            else Inl Out_of_bounds_access))"

text \<open>The assignment \<^verbatim>\<open>dst[i] = c\<close>.\<close>

definition store :: "buffer option \<Rightarrow> nat \<Rightarrow> char \<Rightarrow> fault + buffer" where
  "store dst i c =
     (case dst of
        None \<Rightarrow> Inl Null_pointer_access
      | Some b \<Rightarrow> if i < length b then Inr (b[i := Some c]) else Inl Out_of_bounds_access)"

text \<open>
  Reading a block as a C string (\<^verbatim>\<open>strlen\<close>, the \<^verbatim>\<open>%s\<close> of \<^verbatim>\<open>snprintf\<close>, or
  handing the pointer to the broker): the bytes up to the first NUL. Reading a byte
  that was never written, or running off the block, is a fault.
\<close>

fun c_str :: "buffer \<Rightarrow> fault + string" where
  "c_str [] = Inl Out_of_bounds_access"
| "c_str (None # b) = Inl Indeterminate_read"
| "c_str (Some c # b) =
     (if c = NUL then Inr []
      else (case c_str b of Inl e \<Rightarrow> Inl e | Inr s \<Rightarrow> Inr (c # s)))"

text \<open>
  \<^verbatim>\<open>snprintf(buf, n, fmt, ...)\<close>, given the text \<open>out\<close> that the format and its
  arguments produce: at most \<open>n - 1\<close> bytes of it are written, then a terminator.
\<close>

definition snprintf :: "buffer \<Rightarrow> nat \<Rightarrow> string \<Rightarrow> fault + buffer" where
  "snprintf buf n out =
     (if n = 0 then Inr buf
      else if length (take (n - 1) out @ [NUL]) \<le> length buf
      then Inr (map Some (take (n - 1) out @ [NUL]) @ drop (length (take (n - 1) out @ [NUL])) buf)
      else Inl Out_of_bounds_access)"

text \<open>
  \<^verbatim>\<open>strncmp\<close> compares at most n bytes as unsigned values and stops at a terminator;
  only the sign of its result is specified. \<^verbatim>\<open>strcasecmp\<close> compares whole strings
  after \<^verbatim>\<open>tolower\<close> (C locale).
\<close>

fun strncmp :: "string \<Rightarrow> string \<Rightarrow> nat \<Rightarrow> int" where
  "strncmp a b 0 = 0"
| "strncmp [] [] (Suc n) = 0"
| "strncmp [] (y # b) (Suc n) = - 1"
| "strncmp (x # a) [] (Suc n) = 1"
| "strncmp (x # a) (y # b) (Suc n) =
     (if x = y then strncmp a b n
      else if (of_char x :: nat) < of_char y then - 1 else 1)"

definition tolower :: "char \<Rightarrow> char" where
  "tolower c =
     (if (65::nat) \<le> of_char c \<and> (of_char c :: nat) \<le> 90
      then char_of ((of_char c :: nat) + 32) else c)"

fun strcasecmp :: "string \<Rightarrow> string \<Rightarrow> int" where
  "strcasecmp [] [] = 0"
| "strcasecmp [] (y # b) = - 1"
| "strcasecmp (x # a) [] = 1"
| "strcasecmp (x # a) (y # b) =
     (if tolower x = tolower y then strcasecmp a b
      else if (of_char (tolower x) :: nat) < of_char (tolower y) then - 1 else 1)"

text \<open>
  In C a character constant has type \<^verbatim>\<open>int\<close>, so \<^verbatim>\<open>sizeof('/')\<close> is the size of an
  \<^verbatim>\<open>int\<close>: 4 bytes on the platforms of the broker.
\<close>

definition sizeof_char_constant :: nat where
  "sizeof_char_constant = 4"

subsection \<open>POSIX extended regular expressions\<close>

text \<open>
  \<^verbatim>\<open>regcomp\<close> and \<^verbatim>\<open>regexec\<close> belong to the C library, not to the plugin. Their
  model has three parts: the syntax tree of an extended regular expression, a
  compiler from the source text of a pattern to that tree, and a backtracking
  matcher that reports the offsets of the match and of each parenthesised
  subexpression as \<^verbatim>\<open>regexec\<close> does in its \<^verbatim>\<open>pmatch\<close> array.

  The compiler covers ordinary characters, a backslash before a special character,
  \<^verbatim>\<open>.\<close>, bracket expressions built from characters and ranges (with \<^verbatim>\<open>^\<close> for the
  complement), groups, alternation, the anchors, and the repetitions \<^verbatim>\<open>*\<close>, \<^verbatim>\<open>+\<close>
  and \<^verbatim>\<open>?\<close>; both patterns that the plugin itself contains lie in this fragment.
  Interval expressions, class names and collating symbols inside brackets, and a
  backslash before any other character are outside of it: for them the compiler
  answers \<open>REG_ENOSYS\<close>, which only marks the limit of the model. Of a rejected
  pattern only the rejection is used below, not which error code it gets.
  Characters are compared by byte value (the C locale). Where a pattern can match
  a subject in more than one way, the offsets of the groups follow the preferences
  of this matcher, which need not be those of a given C library; each of the two
  patterns of the plugin matches a subject in one way at most.
\<close>

datatype ere =
    Chr char
  | Any
  | Bracket bool "(char \<times> char) list"
  | Bol
  | Eol
  | Eps
  | Group nat ere
  | Cat ere ere
  | Alt ere ere
  | Star ere
  | Loop ere

datatype reg_errcode =
    REG_EPAREN
  | REG_EBRACK
  | REG_BADRPT
  | REG_EESCAPE
  | REG_ERANGE
  | REG_ENOSYS

text \<open>
  Bracket expressions. \<open>bracket_items\<close> reads the items after the opening bracket
  (and after a leading \<^verbatim>\<open>^\<close>) up to the closing bracket and returns the ranges (a
  single character \<open>c\<close> is the range from \<open>c\<close> to \<open>c\<close>) together with the number of
  characters read. A \<^verbatim>\<open>]\<close> in first position is an item, not the end.
\<close>

definition opens_class :: "string \<Rightarrow> bool" where
  "opens_class cs =
     (case cs of
        c # d # ds \<Rightarrow> c = CHR ''['' \<and> (d = CHR ''.'' \<or> d = CHR '':'' \<or> d = CHR ''='')
      | _ \<Rightarrow> False)"

fun bracket_items ::
  "bool \<Rightarrow> string \<Rightarrow> (char \<times> char) list \<Rightarrow> nat \<Rightarrow> reg_errcode + ((char \<times> char) list \<times> nat)"
where
  "bracket_items first [] acc n = Inl REG_EBRACK"
| "bracket_items first (c # cs) acc n =
     (if c = CHR '']'' \<and> \<not> first then Inr (rev acc, n + 1)
      else if opens_class (c # cs) then Inl REG_ENOSYS
      else (case cs of
          d # e # es \<Rightarrow>
            if d = CHR ''-'' \<and> e \<noteq> CHR '']''
            then (if opens_class (e # es) then Inl REG_ENOSYS
                  else if (of_char e :: nat) < of_char c then Inl REG_ERANGE
                  else bracket_items False es ((c, e) # acc) (n + 3))
            else bracket_items False cs ((c, c) # acc) (n + 1)
        | _ \<Rightarrow> bracket_items False cs ((c, c) # acc) (n + 1)))"

definition bracket :: "string \<Rightarrow> reg_errcode + (ere \<times> nat)" where
  "bracket cs =
     (case cs of
        c # cs' \<Rightarrow>
          if c = CHR ''^''
          then (case bracket_items True cs' [] 1 of
                  Inl e \<Rightarrow> Inl e
                | Inr (rs, n) \<Rightarrow> Inr (Bracket True rs, n))
          else (case bracket_items True cs [] 0 of
                  Inl e \<Rightarrow> Inl e
                | Inr (rs, n) \<Rightarrow> Inr (Bracket False rs, n))
      | [] \<Rightarrow> Inl REG_EBRACK)"

text \<open>
  The compiler reads the pattern from left to right. A \<open>frame\<close> is one open
  parenthesis level: the number of its group (0 for the whole pattern), the
  alternatives that are complete, and the pieces of the alternative being read,
  both latest first.
\<close>

type_synonym frame = "nat \<times> ere list \<times> ere list"

fun branch :: "ere list \<Rightarrow> ere" where
  "branch [] = Eps"
| "branch (r # rs) = foldl (\<lambda>acc p. Cat p acc) r rs"

definition alternation :: "ere list \<Rightarrow> ere list \<Rightarrow> ere" where
  "alternation alts pieces = foldl (\<lambda>acc b. Alt b acc) (branch pieces) alts"

definition special :: "char \<Rightarrow> bool" where
  "special c = (c \<in> set ''^.[$()|*+?{'' \<or> c = CHR 0x5C)"

definition repetition :: "char \<Rightarrow> ere \<Rightarrow> ere" where
  "repetition c r =
     (if c = CHR ''*'' then Star r
      else if c = CHR ''+'' then Cat r (Loop r)
      else Alt r Eps)"

fun parse :: "frame \<Rightarrow> frame list \<Rightarrow> nat \<Rightarrow> string \<Rightarrow> reg_errcode + (ere \<times> nat)" where
  "parse (g, alts, pieces) stack nsub [] =
     (if stack = [] then Inr (alternation alts pieces, nsub) else Inl REG_EPAREN)"
| "parse (g, alts, pieces) stack nsub (c # cs) =
     (if c = CHR ''('' then parse (nsub + 1, [], []) ((g, alts, pieces) # stack) (nsub + 1) cs
      else if c = CHR '')'' then
        (case stack of
           [] \<Rightarrow> parse (g, alts, Chr c # pieces) [] nsub cs
         | (g', alts', pieces') # stack' \<Rightarrow>
             parse (g', alts', Group g (alternation alts pieces) # pieces') stack' nsub cs)
      else if c = CHR ''|'' then parse (g, branch pieces # alts, []) stack nsub cs
      else if c = CHR ''*'' \<or> c = CHR ''+'' \<or> c = CHR ''?'' then
        (case pieces of
           [] \<Rightarrow> Inl REG_BADRPT
         | r # pieces' \<Rightarrow>
             if r = Bol \<or> r = Eol then Inl REG_BADRPT
             else parse (g, alts, repetition c r # pieces') stack nsub cs)
      else if c = CHR ''{'' then Inl REG_ENOSYS
      else if c = CHR 0x5C then
        (case cs of
           [] \<Rightarrow> Inl REG_EESCAPE
         | d # ds \<Rightarrow>
             if special d then parse (g, alts, Chr d # pieces) stack nsub ds
             else Inl REG_ENOSYS)
      else if c = CHR ''['' then
        (case bracket cs of
           Inl e \<Rightarrow> Inl e
         | Inr (b, k) \<Rightarrow> parse (g, alts, b # pieces) stack nsub (drop k cs))
      else if c = CHR ''.'' then parse (g, alts, Any # pieces) stack nsub cs
      else if c = CHR ''^'' then parse (g, alts, Bol # pieces) stack nsub cs
      else if c = CHR ''$'' then parse (g, alts, Eol # pieces) stack nsub cs
      else parse (g, alts, Chr c # pieces) stack nsub cs)"

text \<open>
  The matcher. A state is the offset reached in the subject string, the rest of the
  subject from there, and the offsets recorded so far (entry k for group k).
  \<open>ms r st\<close> lists the states in which a match of \<open>r\<close> begun in \<open>st\<close> can end, a
  longer repetition before a shorter one and a left alternative before a right one.
  A repetition goes round again only after an iteration that consumed input; the
  tree \<open>Loop r\<close> is the repetition of \<open>r\<close> after its first round (what follows the
  first \<open>r\<close> of \<^verbatim>\<open>r+\<close>, too), where an iteration that consumed nothing is dropped.
  The test in the equation for \<open>Cat\<close> always holds (a match never gives input back);
  it is written out for the termination proof.
\<close>

type_synonym regmatch_t = "int \<times> int"

type_synonym mstate = "nat \<times> string \<times> regmatch_t list"

definition remaining :: "mstate \<Rightarrow> string" where
  "remaining st = fst (snd st)"

definition offsets :: "mstate \<Rightarrow> regmatch_t list" where
  "offsets st = snd (snd st)"

fun in_ranges :: "char \<Rightarrow> (char \<times> char) list \<Rightarrow> bool" where
  "in_ranges c [] = False"
| "in_ranges c ((lo, hi) # rs) =
     (((of_char lo :: nat) \<le> of_char c \<and> (of_char c :: nat) \<le> of_char hi) \<or> in_ranges c rs)"

definition step :: "(char \<Rightarrow> bool) \<Rightarrow> mstate \<Rightarrow> mstate list" where
  "step accepts st =
     (case remaining st of
        [] \<Rightarrow> []
      | x # xs \<Rightarrow> if accepts x then [(fst st + 1, xs, offsets st)] else [])"

function ms :: "ere \<Rightarrow> mstate \<Rightarrow> mstate list" where
  "ms (Chr c) st = step (\<lambda>x. x = c) st"
| "ms Any st = step (\<lambda>x. True) st"
| "ms (Bracket neg rs) st = step (\<lambda>x. in_ranges x rs \<noteq> neg) st"
| "ms Bol st = (if fst st = 0 then [st] else [])"
| "ms Eol st = (if remaining st = [] then [st] else [])"
| "ms Eps st = [st]"
| "ms (Group k r) st =
     map (\<lambda>st'. (fst st', remaining st', (offsets st')[k := (int (fst st), int (fst st'))]))
       (ms r st)"
| "ms (Cat r1 r2) st =
     concat (map (\<lambda>st'. if length (remaining st') \<le> length (remaining st) then ms r2 st' else [])
       (ms r1 st))"
| "ms (Alt r1 r2) st = ms r1 st @ ms r2 st"
| "ms (Star r) st =
     concat (map (\<lambda>st'. if length (remaining st') < length (remaining st) then ms (Loop r) st' else [st'])
       (ms r st)) @ [st]"
| "ms (Loop r) st =
     concat (map (\<lambda>st'. if length (remaining st') < length (remaining st) then ms (Loop r) st' else [])
       (ms r st)) @ [st]"
  by pat_completeness auto
termination
  by (relation "inv_image (less_than <*lex*> less_than) (\<lambda>(r, st). (length (remaining st), size r))")
    auto

text \<open>
  \<^verbatim>\<open>regexec\<close> reports the leftmost match and, among the matches that begin there,
  the longest. \<open>longest\<close> picks from the end states of one starting offset the first
  that leaves the least input; \<open>re_search\<close> tries the starting offsets in turn and
  records the whole match as entry 0.
\<close>

fun longest :: "mstate list \<Rightarrow> mstate option" where
  "longest [] = None"
| "longest (st # sts) =
     (case longest sts of
        None \<Rightarrow> Some st
      | Some st' \<Rightarrow> if length (remaining st') < length (remaining st) then Some st' else Some st)"

fun re_search :: "ere \<Rightarrow> nat \<Rightarrow> nat \<Rightarrow> string \<Rightarrow> regmatch_t list option" where
  "re_search r nsub i s =
     (case longest (ms r (i, s, replicate (nsub + 1) (- 1, - 1))) of
        Some st \<Rightarrow> Some ((offsets st)[0 := (int i, int (fst st))])
      | None \<Rightarrow> (case s of [] \<Rightarrow> None | x # xs \<Rightarrow> re_search r nsub (i + 1) xs))"

text \<open>
  A compiled pattern (\<^verbatim>\<open>regex_t\<close>) is represented by what \<^verbatim>\<open>regexec\<close> computes
  from it: for a subject string, no match, or the offsets (\<^verbatim>\<open>rm_so\<close>, \<^verbatim>\<open>rm_eo\<close>) of
  the match and of all its groups. \<open>regexec\<close> fills an array of \<open>nmatch\<close> entries,
  with \<open>(-1, -1)\<close> for the entries that have no group.
\<close>

type_synonym regex_t = "string \<Rightarrow> regmatch_t list option"

definition regexec :: "regex_t \<Rightarrow> string \<Rightarrow> nat \<Rightarrow> regmatch_t list option" where
  "regexec preg str nmatch =
     (case preg str of
        None \<Rightarrow> None
      | Some pm \<Rightarrow> Some (take nmatch (pm @ replicate nmatch (- 1, - 1))))"

definition rm_so :: "regmatch_t \<Rightarrow> int" where
  "rm_so m = fst m"

definition rm_eo :: "regmatch_t \<Rightarrow> int" where
  "rm_eo m = snd m"

text \<open>\<^verbatim>\<open>regcomp\<close> with the flag \<^verbatim>\<open>REG_EXTENDED\<close>.\<close>

definition regcomp_extended :: "string \<Rightarrow> reg_errcode + regex_t" where
  "regcomp_extended pattern =
     (case parse (0, [], []) [] 0 pattern of
        Inl e \<Rightarrow> Inl e
      | Inr (r, nsub) \<Rightarrow> Inr (re_search r nsub 0))"

subsection \<open>The broker's side of the plugin interface\<close>

text \<open>
  Of a client the callbacks read the username, which may be absent
  (\<^verbatim>\<open>mosquitto_client_username\<close> returns a null pointer), and the client identifier,
  which \<^verbatim>\<open>mosquitto_set_clientid\<close> replaces. Of the event records they use the client
  and the topic (\<^verbatim>\<open>struct mosquitto_evt_message\<close>) or the topic filter
  (\<^verbatim>\<open>data.topic_filter\<close> of \<^verbatim>\<open>struct mosquitto_evt_subscribe\<close> and of
  \<^verbatim>\<open>struct mosquitto_evt_unsubscribe\<close>, which one record stands for).
\<close>

record client =
  username :: "string option"
  client_id :: string

record mosquitto_evt_message =
  client :: client
  topic :: string

record mosquitto_evt_subscribe =
  sub_client :: client
  topic_filter :: string

definition MOSQ_ERR_SUCCESS :: int where
  "MOSQ_ERR_SUCCESS = 0"

definition MOSQ_ERR_NOMEM :: int where
  "MOSQ_ERR_NOMEM = 1"

datatype mosq_event =
    MOSQ_EVT_CONNECT
  | MOSQ_EVT_MESSAGE_IN
  | MOSQ_EVT_MESSAGE_OUT
  | MOSQ_EVT_SUBSCRIBE
  | MOSQ_EVT_UNSUBSCRIBE

datatype callback =
    Connect_callback
  | Callback_message_in
  | Callback_message_out
  | Callback_subscribe
  | Callback_unsubscribe

text \<open>
  The plugin's static variables: the two \<^verbatim>\<open>regex_t\<close> objects, each \<open>None\<close> as
  long as no \<^verbatim>\<open>regcomp\<close> has succeeded on it (the contents of a \<^verbatim>\<open>regex_t\<close> after
  a failed \<^verbatim>\<open>regcomp\<close> are not defined), and, as the effect of
  \<^verbatim>\<open>mosquitto_callback_register\<close>, the callbacks that the broker holds.
\<close>

record plugin =
  username_match :: "regex_t option"
  shared_sub_match :: "regex_t option"
  registered :: "(mosq_event \<times> callback) list"

definition unloaded :: plugin where
  "unloaded = \<lparr>username_match = None, shared_sub_match = None, registered = []\<rparr>"

subsection \<open>The plugin\<close>

text \<open>
  \<^verbatim>\<open>get_team\<close> (lines 59-74). The result of \<^verbatim>\<open>mosquitto_malloc\<close> is used unchecked.
  \<^verbatim>\<open>regexec\<close> reports offsets with \<^verbatim>\<open>0 <= rm_so <= rm_eo\<close>, or both \<^verbatim>\<open>-1\<close> for a
  group that the pattern does not have; then the size is 0 and nothing is copied.
  Calls of \<^verbatim>\<open>mosquitto_free\<close> have no part in what the callbacks return and are
  left out, here and below.
\<close>

definition get_team :: "plugin \<Rightarrow> allocator \<Rightarrow> string \<Rightarrow> fault + string option" where
  "get_team p mem str =
     (case username_match p of
        None \<Rightarrow> Inl Uncompiled_regex
      | Some preg \<Rightarrow>
          (case regexec preg str 2 of
             Some pmatch \<Rightarrow>
               (let size = nat (rm_eo (pmatch ! 1) - rm_so (pmatch ! 1));
                    team = mosquitto_malloc mem 0 (size + 1)
                in seq (strncpy team (drop (nat (rm_so (pmatch ! 1))) str) size) (\<lambda>team.
                   seq (store team size NUL) (\<lambda>team.
                   seq (c_str team) (\<lambda>team.
                   Inr (Some team)))))
           | None \<Rightarrow> Inr None))"

text \<open>\<^verbatim>\<open>connect_callback\<close> (lines 76-116).\<close>

definition connect_callback ::
  "plugin \<Rightarrow> allocator \<Rightarrow> mosquitto_evt_message \<Rightarrow> fault + (int \<times> mosquitto_evt_message)"
where
  "connect_callback p mem ed =
     (case username (client ed) of
        None \<Rightarrow> Inr (MOSQ_ERR_SUCCESS, ed)
      | Some user \<Rightarrow>
          (let ident = client_id (client ed);
               idlen = length ident
           in seq (get_team p mem user) (\<lambda>team.
              case team of
                None \<Rightarrow> Inr (MOSQ_ERR_SUCCESS, ed)
              | Some team \<Rightarrow>
                  (let new_id_len = length team + sizeof_char_constant + idlen + 1
                   in case mosquitto_calloc mem 1 1 new_id_len of
                        None \<Rightarrow> Inr (MOSQ_ERR_NOMEM, ed)
                      | Some new_id \<Rightarrow>
                          seq (snprintf new_id new_id_len (ident @ ''@'' @ team)) (\<lambda>new_id.
                          seq (c_str new_id) (\<lambda>new_id.
                          Inr (MOSQ_ERR_SUCCESS,
                               ed\<lparr>client := (client ed)\<lparr>client_id := new_id\<rparr>\<rparr>)))))))"

text \<open>\<^verbatim>\<open>callback_message_in\<close> (lines 119-163).\<close>

definition callback_message_in ::
  "plugin \<Rightarrow> allocator \<Rightarrow> mosquitto_evt_message \<Rightarrow> fault + (int \<times> mosquitto_evt_message)"
where
  "callback_message_in p mem ed =
     (case username (client ed) of
        None \<Rightarrow> Inr (MOSQ_ERR_SUCCESS, ed)
      | Some user \<Rightarrow>
          seq (get_team p mem user) (\<lambda>team.
          case team of
            None \<Rightarrow> Inr (MOSQ_ERR_SUCCESS, ed)
          | Some team \<Rightarrow>
              (let new_topic_len = length team + sizeof_char_constant + length (topic ed) + 1
               in case mosquitto_calloc mem 1 1 new_topic_len of
                    None \<Rightarrow> Inr (MOSQ_ERR_NOMEM, ed)
                  | Some new_topic \<Rightarrow>
                      seq (snprintf new_topic new_topic_len (team @ ''/'' @ topic ed)) (\<lambda>new_topic.
                      seq (c_str new_topic) (\<lambda>new_topic.
                      Inr (MOSQ_ERR_SUCCESS, ed\<lparr>topic := new_topic\<rparr>))))))"

text \<open>
  \<^verbatim>\<open>callback_message_out\<close> (lines 165-214). The index \<open>team_len\<close> is inside the topic
  when the second test is reached, because the topic is longer than \<open>team_len + 1\<close>.
\<close>

definition callback_message_out ::
  "plugin \<Rightarrow> allocator \<Rightarrow> mosquitto_evt_message \<Rightarrow> fault + (int \<times> mosquitto_evt_message)"
where
  "callback_message_out p mem ed =
     (case username (client ed) of
        None \<Rightarrow> Inr (MOSQ_ERR_SUCCESS, ed)
      | Some user \<Rightarrow>
          seq (get_team p mem user) (\<lambda>team.
          case team of
            None \<Rightarrow> Inr (MOSQ_ERR_SUCCESS, ed)
          | Some team \<Rightarrow>
              (let team_len = length team
               in if length (topic ed) \<le> team_len + 1 then Inr (MOSQ_ERR_SUCCESS, ed)
                  else if strncmp team (topic ed) team_len = 0 \<and> topic ed ! team_len = CHR ''/''
                  then (case mosquitto_strdup mem 1 (drop (team_len + 1) (topic ed)) of
                          None \<Rightarrow> Inr (MOSQ_ERR_NOMEM, ed)
                        | Some new_topic \<Rightarrow> Inr (MOSQ_ERR_SUCCESS, ed\<lparr>topic := new_topic\<rparr>))
                  else Inr (MOSQ_ERR_SUCCESS, ed))))"

text \<open>
  \<^verbatim>\<open>callback_subscribe\<close> (lines 216-288). In the branch for shared subscriptions the
  blocks \<open>share_group\<close> and \<open>topic\<close> are requested first and used unchecked; the
  terminator of \<open>share_group\<close> is stored at index \<open>group_size\<close> (line 252), that of
  \<open>topic\<close> at index \<open>topic_size + 1\<close> (line 254).
\<close>

definition callback_subscribe ::
  "plugin \<Rightarrow> allocator \<Rightarrow> mosquitto_evt_subscribe \<Rightarrow> fault + (int \<times> mosquitto_evt_subscribe)"
where
  "callback_subscribe p mem ed =
     (case username (sub_client ed) of
        None \<Rightarrow> Inr (MOSQ_ERR_SUCCESS, ed)
      | Some user \<Rightarrow>
          seq (get_team p mem user) (\<lambda>team.
          case team of
            None \<Rightarrow> Inr (MOSQ_ERR_SUCCESS, ed)
          | Some team \<Rightarrow>
              if strncmp (topic_filter ed) ''$share/'' 7 = 0
              then
                (let new_sub_len =
                       length team + sizeof_char_constant * 2 + length (topic_filter ed) + 1
                 in case mosquitto_calloc mem 1 1 new_sub_len of
                      None \<Rightarrow> Inr (MOSQ_ERR_NOMEM, ed)
                    | Some new_sub \<Rightarrow>
                        (case shared_sub_match p of
                           None \<Rightarrow> Inl Uncompiled_regex
                         | Some preg \<Rightarrow>
                             (case regexec preg (topic_filter ed) 3 of
                                Some pmatch \<Rightarrow>
                                  (let group_size = nat (rm_eo (pmatch ! 1) - rm_so (pmatch ! 1));
                                       topic_size = nat (rm_eo (pmatch ! 2) - rm_so (pmatch ! 2));
                                       share_group = mosquitto_malloc mem 2 (group_size + 1);
                                       topic = mosquitto_malloc mem 3 (topic_size + 1)
                                   in seq (strncpy share_group
                                             (drop (nat (rm_so (pmatch ! 1))) (topic_filter ed))
                                             group_size) (\<lambda>share_group.
                                      seq (store share_group group_size NUL) (\<lambda>share_group.
                                      seq (strncpy topic
                                             (drop (nat (rm_so (pmatch ! 2))) (topic_filter ed))
                                             topic_size) (\<lambda>topic.
                                      seq (store topic (topic_size + 1) NUL) (\<lambda>topic.
                                      seq (c_str share_group) (\<lambda>share_group.
                                      seq (c_str topic) (\<lambda>topic.
                                      seq (snprintf new_sub new_sub_len
                                             (share_group @ ''/'' @ team @ ''/'' @ topic)) (\<lambda>new_sub.
                                      seq (c_str new_sub) (\<lambda>new_sub.
                                      Inr (MOSQ_ERR_SUCCESS, ed\<lparr>topic_filter := new_sub\<rparr>))))))))))
                              | None \<Rightarrow> Inr (MOSQ_ERR_NOMEM, ed))))
              else
                (let new_sub_len =
                       length team + sizeof_char_constant + length (topic_filter ed) + 1
                 in case mosquitto_calloc mem 1 1 new_sub_len of
                      None \<Rightarrow> Inr (MOSQ_ERR_NOMEM, ed)
                    | Some new_sub \<Rightarrow>
                        seq (snprintf new_sub new_sub_len (team @ ''/'' @ topic_filter ed)) (\<lambda>new_sub.
                        seq (c_str new_sub) (\<lambda>new_sub.
                        Inr (MOSQ_ERR_SUCCESS, ed\<lparr>topic_filter := new_sub\<rparr>))))))"

text \<open>\<^verbatim>\<open>callback_unsubscribe\<close> (lines 290-364), translated on its own from its text.\<close>

definition callback_unsubscribe ::
  "plugin \<Rightarrow> allocator \<Rightarrow> mosquitto_evt_subscribe \<Rightarrow> fault + (int \<times> mosquitto_evt_subscribe)"
where
  "callback_unsubscribe p mem ed =
     (case username (sub_client ed) of
        None \<Rightarrow> Inr (MOSQ_ERR_SUCCESS, ed)
      | Some user \<Rightarrow>
          seq (get_team p mem user) (\<lambda>team.
          case team of
            None \<Rightarrow> Inr (MOSQ_ERR_SUCCESS, ed)
          | Some team \<Rightarrow>
              if strncmp (topic_filter ed) ''$share/'' 7 = 0
              then
                (let new_sub_len =
                       length team + sizeof_char_constant * 2 + length (topic_filter ed) + 1
                 in case mosquitto_calloc mem 1 1 new_sub_len of
                      None \<Rightarrow> Inr (MOSQ_ERR_NOMEM, ed)
                    | Some new_sub \<Rightarrow>
                        (case shared_sub_match p of
                           None \<Rightarrow> Inl Uncompiled_regex
                         | Some preg \<Rightarrow>
                             (case regexec preg (topic_filter ed) 3 of
                                Some pmatch \<Rightarrow>
                                  (let group_size = nat (rm_eo (pmatch ! 1) - rm_so (pmatch ! 1));
                                       topic_size = nat (rm_eo (pmatch ! 2) - rm_so (pmatch ! 2));
                                       share_group = mosquitto_malloc mem 2 (group_size + 1);
                                       topic = mosquitto_malloc mem 3 (topic_size + 1)
                                   in seq (strncpy share_group
                                             (drop (nat (rm_so (pmatch ! 1))) (topic_filter ed))
                                             group_size) (\<lambda>share_group.
                                      seq (store share_group group_size NUL) (\<lambda>share_group.
                                      seq (strncpy topic
                                             (drop (nat (rm_so (pmatch ! 2))) (topic_filter ed))
                                             topic_size) (\<lambda>topic.
                                      seq (store topic (topic_size + 1) NUL) (\<lambda>topic.
                                      seq (c_str share_group) (\<lambda>share_group.
                                      seq (c_str topic) (\<lambda>topic.
                                      seq (snprintf new_sub new_sub_len
                                             (share_group @ ''/'' @ team @ ''/'' @ topic)) (\<lambda>new_sub.
                                      seq (c_str new_sub) (\<lambda>new_sub.
                                      Inr (MOSQ_ERR_SUCCESS, ed\<lparr>topic_filter := new_sub\<rparr>))))))))))
                              | None \<Rightarrow> Inr (MOSQ_ERR_NOMEM, ed))))
              else
                (let new_sub_len =
                       length team + sizeof_char_constant + length (topic_filter ed) + 1
                 in case mosquitto_calloc mem 1 1 new_sub_len of
                      None \<Rightarrow> Inr (MOSQ_ERR_NOMEM, ed)
                    | Some new_sub \<Rightarrow>
                        seq (snprintf new_sub new_sub_len (team @ ''/'' @ topic_filter ed)) (\<lambda>new_sub.
                        seq (c_str new_sub) (\<lambda>new_sub.
                        Inr (MOSQ_ERR_SUCCESS, ed\<lparr>topic_filter := new_sub\<rparr>))))))"

text \<open>
  \<^verbatim>\<open>mosquitto_plugin_init\<close> (lines 367-401). The C library's \<^verbatim>\<open>regcomp\<close> and the
  broker's answer to each registration are parameters: \<open>regcomp\<close> maps the source of
  a pattern to an error code or a compiled pattern, \<open>broker\<close> maps an event to the
  status that \<^verbatim>\<open>mosquitto_callback_register\<close> returns for it. The value that
  \<^verbatim>\<open>regcomp\<close> returns is dropped at all three calls.
\<close>

type_synonym mosquitto_opt = "string \<times> string"

definition compile_into :: "reg_errcode + regex_t \<Rightarrow> regex_t option" where
  "compile_into res = (case res of Inl e \<Rightarrow> None | Inr preg \<Rightarrow> Some preg)"

fun find_regex ::
  "(string \<Rightarrow> reg_errcode + regex_t) \<Rightarrow> mosquitto_opt list \<Rightarrow> plugin \<times> bool \<Rightarrow> plugin \<times> bool"
where
  "find_regex regcomp [] (p, found) = (p, found)"
| "find_regex regcomp ((key, val) # opts) (p, found) =
     (if strcasecmp key ''regex'' = 0
      then find_regex regcomp opts (p\<lparr>username_match := compile_into (regcomp val)\<rparr>, True)
      else find_regex regcomp opts (p, found))"

definition mosquitto_callback_register ::
  "(mosq_event \<Rightarrow> int) \<Rightarrow> plugin \<Rightarrow> mosq_event \<Rightarrow> callback \<Rightarrow> int \<times> plugin"
where
  "mosquitto_callback_register broker p event cb =
     (if broker event = 0
      then (0, p\<lparr>registered := registered p @ [(event, cb)]\<rparr>)
      else (broker event, p))"

definition default_regex :: string where
  "default_regex = ''^[a-z0-9]+@([a-z0-9]+)$''"

definition shared_sub_regex :: string where
  "shared_sub_regex =
     [CHR ''^'', CHR ''('', CHR 0x5C] @ ''$share/[^/]+)/(.+)$''"

definition mosquitto_plugin_init ::
  "(string \<Rightarrow> reg_errcode + regex_t) \<Rightarrow> (mosq_event \<Rightarrow> int) \<Rightarrow> mosquitto_opt list \<Rightarrow> int \<times> plugin"
where
  "mosquitto_plugin_init regcomp broker opts =
     (let (p, found) = find_regex regcomp opts (unloaded, False);
          p = (if \<not> found then p\<lparr>username_match := compile_into (regcomp default_regex)\<rparr> else p);
          p = p\<lparr>shared_sub_match := compile_into (regcomp shared_sub_regex)\<rparr>;
          (rc, p) = mosquitto_callback_register broker p MOSQ_EVT_CONNECT Connect_callback
      in if rc \<noteq> 0 then (rc, p)
         else
           (let (rc, p) = mosquitto_callback_register broker p MOSQ_EVT_MESSAGE_IN Callback_message_in
            in if rc \<noteq> 0 then (rc, p)
               else
                 (let (rc, p) =
                        mosquitto_callback_register broker p MOSQ_EVT_MESSAGE_OUT Callback_message_out
                  in if rc \<noteq> 0 then (rc, p)
                     else
                       (let (rc, p) =
                              mosquitto_callback_register broker p MOSQ_EVT_SUBSCRIBE Callback_subscribe
                        in if rc \<noteq> 0 then (rc, p)
                           else mosquitto_callback_register broker p
                                  MOSQ_EVT_UNSUBSCRIBE Callback_unsubscribe))))"

text \<open>
  Concrete surroundings for worked examples: an allocator that serves every request,
  a broker that accepts every registration, and the plugin as initialised without
  options on top of the modelled \<open>regcomp_extended\<close>.
\<close>

definition serves_all :: allocator where
  "serves_all k = True"

definition accepts_all :: "mosq_event \<Rightarrow> int" where
  "accepts_all event = 0"

definition default_plugin :: plugin where
  "default_plugin = snd (mosquitto_plugin_init regcomp_extended accepts_all [])"

text \<open>
  A matcher state lies on the subject string \<open>u\<close> when its offset is inside \<open>u\<close> and
  its remaining input is \<open>u\<close> from that offset on.
\<close>

definition on_subject :: "string \<Rightarrow> mstate \<Rightarrow> bool" where
  "on_subject u st = (fst st \<le> length u \<and> remaining st = drop (fst st) u)"

section \<open>Properties\<close>

subsection \<open>Strings and heap blocks\<close>

declare ms.simps [simp del] re_search.simps [simp del]

lemma seq_Inr: "seq (Inr x) f = f x"
  by (simp add: seq_def)

lemma seq_result: "seq m f = Inr y \<Longrightarrow> \<exists>x. m = Inr x \<and> f x = Inr y"
  by (cases m) (simp_all add: seq_def)

lemma c_str_written: "NUL \<notin> set s \<Longrightarrow> c_str (map Some s @ Some NUL # rest) = Inr s"
  by (induction s) auto

lemma c_str_no_NUL: "c_str b = Inr s \<Longrightarrow> NUL \<notin> set s"
proof (induction b arbitrary: s rule: c_str.induct)
  case 1
  then show ?case by simp
next
  case (2 b)
  then show ?case by simp
next
  case (3 c b)
  then show ?case
    by (auto split: if_splits sum.splits)
qed

lemma c_str_starts: "c_str (Some x # b) = Inr s \<Longrightarrow> x \<noteq> NUL \<Longrightarrow> s \<noteq> []"
  by (auto split: sum.splits)

lemma c_string_append: "c_string (a @ b) \<longleftrightarrow> c_string a \<and> c_string b"
  by (auto simp: c_string_def)

lemma c_string_slash: "c_string (CHR ''/'' # a) \<longleftrightarrow> c_string a"
  by (simp add: c_string_def NUL_def)

lemma strncmp_zero_iff: "strncmp a b n = 0 \<longleftrightarrow> take n a = take n b"
  by (induction a b n rule: strncmp.induct) auto

lemma snprintf_fits:
  "length out < n \<Longrightarrow> n \<le> length buf \<Longrightarrow> c_string out \<Longrightarrow>
     seq (snprintf buf n out) c_str = Inr out"
  unfolding snprintf_def c_string_def
  by (simp add: seq_def c_str_written)

text \<open>
  Formatting into a zero-filled block that is longer than the text gives back the
  text: no output of the plugin is cut by the bound of \<^verbatim>\<open>snprintf\<close>.
\<close>

lemma snprintf_calloc:
  assumes "c_string out" and "length out < n"
  shows "seq (snprintf (replicate n (Some NUL)) n out) (\<lambda>b. seq (c_str b) f) = f out"
proof -
  have "seq (snprintf (replicate n (Some NUL)) n out) c_str = Inr out"
    using assms by (intro snprintf_fits) simp_all
  then show ?thesis
    by (auto simp: seq_def split: sum.splits)
qed

subsection \<open>The team of a username\<close>

lemma get_team_c_string: "get_team p mem user = Inr (Some team) \<Longrightarrow> c_string team"
  unfolding get_team_def c_string_def
  by (auto split: option.splits dest!: seq_result simp: Let_def dest: c_str_no_NUL)

lemma get_team_served: "get_team p mem user = Inr (Some team) \<Longrightarrow> mem 0"
  unfolding get_team_def
  by (auto split: option.splits if_splits dest!: seq_result
      simp: Let_def mosquitto_malloc_def strncpy_def store_def)

lemma get_team_matched:
  "get_team p mem user = Inr (Some team) \<Longrightarrow>
     \<exists>preg pm. username_match p = Some preg \<and> preg user = Some pm"
  unfolding get_team_def regexec_def
  by (auto split: option.splits)

lemma get_team_allocator: "mem 0 = mem' 0 \<Longrightarrow> get_team p mem user = get_team p mem' user"
  unfolding get_team_def by (auto simp: mosquitto_malloc_def split: option.splits)

lemma get_team_pattern:
  "username_match p = username_match p' \<Longrightarrow> get_team p mem user = get_team p' mem user"
  unfolding get_team_def by simp

lemma get_team_nonempty:
  assumes pmatch: "preg user = Some pm" "length pm = 2" "pm ! 1 = (int so, int eo)"
    "so < eo" "so < length user" "user ! so \<noteq> NUL"
    and p: "username_match p = Some preg"
    and t: "get_team p mem user = Inr (Some team)"
  shows "team \<noteq> []"
proof -
  have mem: "mem 0"
    using t by (rule get_team_served)
  have r: "regexec preg user 2 = Some pm"
    using pmatch(1,2) by (simp add: regexec_def)
  obtain n where n: "eo - so = Suc n"
    using pmatch(4) by (cases "eo - so") simp_all
  have size: "nat (rm_eo (pm ! 1) - rm_so (pm ! 1)) = Suc n"
    using pmatch(3,4) n by (simp add: rm_eo_def rm_so_def)
  have d: "drop so user = user ! so # drop (Suc so) user"
    using pmatch(5) by (simp add: Cons_nth_drop_Suc)
  from t obtain b where "c_str (Some (user ! so) # b) = Inr team"
    unfolding get_team_def
    using p r mem size pmatch(3) d
    by (auto simp: Let_def mosquitto_malloc_def strncpy_def store_def rm_so_def seq_def
        split: sum.splits if_splits)
  then show ?thesis
    using pmatch(6) by (rule c_str_starts)
qed

subsection \<open>The matcher\<close>

lemma step_result:
  "st' \<in> set (step accepts st) \<Longrightarrow>
     \<exists>x xs. remaining st = x # xs \<and> accepts x \<and> st' = (fst st + 1, xs, offsets st)"
  by (cases "remaining st") (auto simp: step_def split: if_splits)

lemma on_subject_step:
  assumes "on_subject u st" and "st' \<in> set (step accepts st)"
  shows "on_subject u st' \<and> fst st < fst st' \<and> length (offsets st') = length (offsets st)
     \<and> accepts (u ! fst st) \<and> fst st < length u"
proof -
  from step_result [OF assms(2)] obtain x xs
    where r: "remaining st = x # xs" and a: "accepts x" and s: "st' = (fst st + 1, xs, offsets st)"
    by blast
  from assms(1) r have d: "drop (fst st) u = x # xs"
    by (simp add: on_subject_def)
  then have lt: "fst st < length u"
    by (metis drop_all list.distinct(1) not_le)
  from d lt have x: "u ! fst st = x"
    by (metis Cons_nth_drop_Suc list.inject)
  from d lt have xs: "xs = drop (Suc (fst st)) u"
    by (metis Cons_nth_drop_Suc list.inject)
  show ?thesis
    using lt x xs a s by (simp add: on_subject_def remaining_def offsets_def)
qed

lemma ms_Cat_result:
  "st' \<in> set (ms (Cat r1 r2) st) \<Longrightarrow>
     \<exists>m \<in> set (ms r1 st). length (remaining m) \<le> length (remaining st) \<and> st' \<in> set (ms r2 m)"
  by (subst (asm) ms.simps) (auto split: if_splits)

lemma ms_Group_result:
  "st' \<in> set (ms (Group k r) st) \<Longrightarrow>
     \<exists>m \<in> set (ms r st). st' = (fst m, remaining m, (offsets m)[k := (int (fst st), int (fst m))])"
  by (subst (asm) ms.simps) auto

lemma ms_Star_result:
  "st' \<in> set (ms (Star r) st) \<Longrightarrow>
     st' = st \<or>
     (\<exists>m \<in> set (ms r st). st' = m \<or>
        (length (remaining m) < length (remaining st) \<and> st' \<in> set (ms (Loop r) m)))"
  by (subst (asm) ms.simps) (auto split: if_splits)

lemma ms_Loop_result:
  "st' \<in> set (ms (Loop r) st) \<Longrightarrow>
     st' = st \<or>
     (\<exists>m \<in> set (ms r st).
        length (remaining m) < length (remaining st) \<and> st' \<in> set (ms (Loop r) m))"
  by (subst (asm) ms.simps) (auto split: if_splits)

text \<open>
  Every end state of a match lies on the subject again, not before the state the
  match began in, and with as many offset entries.
\<close>

lemma ms_on_subject:
  "on_subject u st \<Longrightarrow> st' \<in> set (ms r st) \<Longrightarrow>
     on_subject u st' \<and> fst st \<le> fst st' \<and> length (offsets st') = length (offsets st)"
proof (induction r st arbitrary: st' rule: ms.induct)
  case (1 c st)
  from on_subject_step [OF "1.prems"(1)] "1.prems"(2) show ?case
    by (fastforce simp: ms.simps)
next
  case (2 st)
  from on_subject_step [OF "2.prems"(1)] "2.prems"(2) show ?case
    by (fastforce simp: ms.simps)
next
  case (3 neg rs st)
  from on_subject_step [OF "3.prems"(1)] "3.prems"(2) show ?case
    by (fastforce simp: ms.simps)
next
  case (4 st)
  then show ?case by (simp add: ms.simps split: if_splits)
next
  case (5 st)
  then show ?case by (simp add: ms.simps split: if_splits)
next
  case (6 st)
  then show ?case by (simp add: ms.simps)
next
  case (7 k r st)
  from ms_Group_result [OF "7.prems"(2)] obtain m where m: "m \<in> set (ms r st)"
    and st': "st' = (fst m, remaining m, (offsets m)[k := (int (fst st), int (fst m))])"
    by blast
  from "7.IH" [OF "7.prems"(1) m] show ?case
    unfolding st' by (simp add: on_subject_def remaining_def offsets_def)
next
  case (8 r1 r2 st)
  from ms_Cat_result [OF "8.prems"(2)] obtain m where m: "m \<in> set (ms r1 st)"
    and g: "length (remaining m) \<le> length (remaining st)" and st': "st' \<in> set (ms r2 m)"
    by blast
  from "8.IH"(1) [OF "8.prems"(1) m] have a: "on_subject u m" "fst st \<le> fst m"
    "length (offsets m) = length (offsets st)" by simp_all
  from "8.IH"(2) [OF m g a(1) st'] a show ?case by simp
next
  case (9 r1 r2 st)
  from "9.prems"(2) have "st' \<in> set (ms r1 st) \<or> st' \<in> set (ms r2 st)"
    by (simp add: ms.simps)
  then show ?case
    using "9.IH"(1) [OF "9.prems"(1)] "9.IH"(2) [OF "9.prems"(1)] by blast
next
  case (10 r st)
  from ms_Star_result [OF "10.prems"(2)] consider "st' = st"
    | m where "m \<in> set (ms r st)" "length (remaining m) < length (remaining st)"
        "st' \<in> set (ms (Loop r) m)"
    | m where "m \<in> set (ms r st)" "st' = m"
    by blast
  then show ?case
  proof cases
    case 1
    then show ?thesis using "10.prems"(1) by simp
  next
    case 2
    from "10.IH"(1) [OF "10.prems"(1) 2(1)] have a: "on_subject u m" "fst st \<le> fst m"
      "length (offsets m) = length (offsets st)" by simp_all
    from "10.IH"(2) [OF 2(1) 2(2) a(1) 2(3)] a show ?thesis by simp
  next
    case 3
    then show ?thesis using "10.IH"(1) [OF "10.prems"(1)] by blast
  qed
next
  case (11 r st)
  from ms_Loop_result [OF "11.prems"(2)] consider "st' = st"
    | m where "m \<in> set (ms r st)" "length (remaining m) < length (remaining st)"
        "st' \<in> set (ms (Loop r) m)"
    by blast
  then show ?case
  proof cases
    case 1
    then show ?thesis using "11.prems"(1) by simp
  next
    case 2
    from "11.IH"(1) [OF "11.prems"(1) 2(1)] have a: "on_subject u m" "fst st \<le> fst m"
      "length (offsets m) = length (offsets st)" by simp_all
    from "11.IH"(2) [OF 2(1) 2(2) a(1) 2(3)] a show ?thesis by simp
  qed
qed

lemma longest_member: "longest sts = Some st \<Longrightarrow> st \<in> set sts"
  by (induction sts arbitrary: st) (auto split: option.splits if_splits)

lemma re_search_result:
  "re_search r nsub i s = Some pm \<Longrightarrow> s = drop i u \<Longrightarrow> i \<le> length u \<Longrightarrow>
     \<exists>j st. i \<le> j \<and> j \<le> length u
        \<and> st \<in> set (ms r (j, drop j u, replicate (nsub + 1) (- 1, - 1)))
        \<and> pm = (offsets st)[0 := (int j, int (fst st))]"
proof (induction r nsub i s rule: re_search.induct)
  case (1 r nsub i s)
  show ?case
  proof (cases "longest (ms r (i, s, replicate (nsub + 1) (- 1, - 1)))")
    case (Some st)
    with "1.prems" have "pm = (offsets st)[0 := (int i, int (fst st))]"
      by (simp add: re_search.simps)
    moreover from Some have "st \<in> set (ms r (i, s, replicate (nsub + 1) (- 1, - 1)))"
      by (rule longest_member)
    ultimately show ?thesis using "1.prems" by blast
  next
    case None
    with "1.prems"(1)
    have "(case s of [] \<Rightarrow> None | x # xs \<Rightarrow> re_search r nsub (i + 1) xs) = Some pm"
      by (simp add: re_search.simps)
    then obtain x xs where s: "s = x # xs" and rec: "re_search r nsub (i + 1) xs = Some pm"
      by (cases s) simp_all
    from s "1.prems" have lt: "i < length u"
      by (metis drop_all list.distinct(1) not_le)
    from s "1.prems" lt have xs: "xs = drop (i + 1) u"
      by (metis Cons_nth_drop_Suc list.inject Suc_eq_plus1)
    from "1.IH" [OF None s rec xs] lt obtain j st where
      "i + 1 \<le> j" "j \<le> length u"
      "st \<in> set (ms r (j, drop j u, replicate (nsub + 1) (- 1, - 1)))"
      "pm = (offsets st)[0 := (int j, int (fst st))]" by auto
    then show ?thesis by (intro exI [of _ j] exI [of _ st]) simp
  qed
qed

subsection \<open>The two patterns of the plugin\<close>

text \<open>What the modelled \<^verbatim>\<open>regcomp\<close> makes of the default pattern and of the pattern for
  shared subscriptions.\<close>

lemma regcomp_default_regex:
  "regcomp_extended default_regex =
     Inr (re_search
       (Cat Bol
         (Cat (Cat (Bracket False [(CHR ''a'', CHR ''z''), (CHR ''0'', CHR ''9'')])
                   (Loop (Bracket False [(CHR ''a'', CHR ''z''), (CHR ''0'', CHR ''9'')])))
           (Cat (Chr CHR ''@'')
             (Cat (Group 1
                    (Cat (Bracket False [(CHR ''a'', CHR ''z''), (CHR ''0'', CHR ''9'')])
                         (Loop (Bracket False [(CHR ''a'', CHR ''z''), (CHR ''0'', CHR ''9'')]))))
                  Eol)))) 1 0)"
  by (simp add: regcomp_extended_def default_regex_def bracket_def opens_class_def
      repetition_def alternation_def special_def)

lemma regcomp_shared_sub_regex:
  "regcomp_extended shared_sub_regex =
     Inr (re_search
       (Cat Bol
         (Cat (Group 1
                (Cat (Chr CHR ''$'') (Cat (Chr CHR ''s'') (Cat (Chr CHR ''h'') (Cat (Chr CHR ''a'')
                  (Cat (Chr CHR ''r'') (Cat (Chr CHR ''e'') (Cat (Chr CHR ''/'')
                    (Cat (Bracket True [(CHR ''/'', CHR ''/'')])
                         (Loop (Bracket True [(CHR ''/'', CHR ''/'')])))))))))))
           (Cat (Chr CHR ''/'') (Cat (Group 2 (Cat Any (Loop Any))) Eol)))) 2 0)"
  by (simp add: regcomp_extended_def shared_sub_regex_def bracket_def opens_class_def
      repetition_def alternation_def special_def numeral_2_eq_2)

lemma in_ranges_lower_alnum_not_NUL:
  "in_ranges x [(CHR ''a'', CHR ''z''), (CHR ''0'', CHR ''9'')] \<Longrightarrow> x \<noteq> NUL"
  by (auto simp: NUL_def)

text \<open>
  On every subject that the default pattern matches, the offsets of its group
  delimit a non-empty stretch of the subject that begins with a byte other than NUL.
\<close>

lemma default_group_offsets:
  assumes "re_search
       (Cat Bol
         (Cat (Cat (Bracket False [(CHR ''a'', CHR ''z''), (CHR ''0'', CHR ''9'')])
                   (Loop (Bracket False [(CHR ''a'', CHR ''z''), (CHR ''0'', CHR ''9'')])))
           (Cat (Chr CHR ''@'')
             (Cat (Group 1
                    (Cat (Bracket False [(CHR ''a'', CHR ''z''), (CHR ''0'', CHR ''9'')])
                         (Loop (Bracket False [(CHR ''a'', CHR ''z''), (CHR ''0'', CHR ''9'')]))))
                  Eol)))) 1 0 u = Some pm"
  shows "\<exists>so eo. length pm = 2 \<and> pm ! 1 = (int so, int eo) \<and> so < eo \<and> so < length u
           \<and> u ! so \<noteq> NUL"
proof -
  let ?cls = "Bracket False [(CHR ''a'', CHR ''z''), (CHR ''0'', CHR ''9'')]"
  from re_search_result [OF assms, of u] obtain j st0 where j: "j \<le> length u"
    and st0: "st0 \<in> set (ms (Cat Bol (Cat (Cat ?cls (Loop ?cls)) (Cat (Chr CHR ''@'')
                 (Cat (Group 1 (Cat ?cls (Loop ?cls))) Eol))))
               (j, drop j u, replicate (1 + 1) (- 1, - 1)))"
    and pm: "pm = (offsets st0)[0 := (int j, int (fst st0))]"
    by force
  let ?init = "(j, drop j u, replicate (1 + 1) (- 1, - 1)) :: mstate"
  have i0: "on_subject u ?init"
    using j by (simp add: on_subject_def remaining_def)
  from ms_Cat_result [OF st0] obtain m0 where m0: "m0 \<in> set (ms Bol ?init)"
    and s1: "st0 \<in> set (ms (Cat (Cat ?cls (Loop ?cls)) (Cat (Chr CHR ''@'')
                 (Cat (Group 1 (Cat ?cls (Loop ?cls))) Eol))) m0)"
    by blast
  from ms_on_subject [OF i0 m0] have i1: "on_subject u m0" "length (offsets m0) = 2"
    by (simp_all add: offsets_def)
  from ms_Cat_result [OF s1] obtain m1 where m1: "m1 \<in> set (ms (Cat ?cls (Loop ?cls)) m0)"
    and s2: "st0 \<in> set (ms (Cat (Chr CHR ''@'') (Cat (Group 1 (Cat ?cls (Loop ?cls))) Eol)) m1)"
    by blast
  from ms_on_subject [OF i1(1) m1] i1 have i2: "on_subject u m1" "length (offsets m1) = 2"
    by simp_all
  from ms_Cat_result [OF s2] obtain m2 where m2: "m2 \<in> set (ms (Chr CHR ''@'') m1)"
    and s3: "st0 \<in> set (ms (Cat (Group 1 (Cat ?cls (Loop ?cls))) Eol) m2)"
    by blast
  from ms_on_subject [OF i2(1) m2] i2 have i3: "on_subject u m2" "length (offsets m2) = 2"
    by simp_all
  from ms_Cat_result [OF s3] obtain m3
    where m3: "m3 \<in> set (ms (Group 1 (Cat ?cls (Loop ?cls))) m2)"
    and s4: "st0 \<in> set (ms Eol m3)"
    by blast
  from s4 have fin: "st0 = m3"
    by (simp add: ms.simps split: if_splits)
  from ms_Group_result [OF m3] obtain m4 where m4: "m4 \<in> set (ms (Cat ?cls (Loop ?cls)) m2)"
    and m3_eq: "m3 = (fst m4, remaining m4, (offsets m4)[1 := (int (fst m2), int (fst m4))])"
    by blast
  from ms_Cat_result [OF m4] obtain m5 where m5: "m5 \<in> set (ms ?cls m2)"
    and m6: "m4 \<in> set (ms (Loop ?cls) m5)"
    by blast
  from m5 have "m5 \<in> set (step (\<lambda>x. in_ranges x [(CHR ''a'', CHR ''z''), (CHR ''0'', CHR ''9'')]
      \<noteq> False) m2)"
    by (simp only: ms.simps)
  from on_subject_step [OF i3(1) this]
  have i5: "on_subject u m5" "fst m2 < fst m5" "fst m2 < length u"
    "in_ranges (u ! fst m2) [(CHR ''a'', CHR ''z''), (CHR ''0'', CHR ''9'')]"
    "length (offsets m5) = length (offsets m2)"
    by simp_all
  from ms_on_subject [OF i5(1) m6]
  have i6: "fst m5 \<le> fst m4" "length (offsets m4) = length (offsets m5)"
    by simp_all
  have len: "length (offsets m4) = 2"
    using i6 i5 i3 by simp
  have "pm ! 1 = (int (fst m2), int (fst m4))"
    unfolding pm fin m3_eq using len by (simp add: offsets_def)
  moreover have "length pm = 2"
    unfolding pm fin m3_eq using len by (simp add: offsets_def)
  moreover have "fst m2 < fst m4"
    using i5(2) i6(1) by simp
  moreover have "u ! fst m2 \<noteq> NUL"
    using i5(4) by (rule in_ranges_lower_alnum_not_NUL)
  ultimately show ?thesis
    using i5(3) by blast
qed

subsection \<open>Initialisation\<close>

lemma find_regex_shared [simp]:
  "shared_sub_match (fst (find_regex regcomp opts (p, found))) = shared_sub_match p"
  by (induction opts arbitrary: p found) auto

lemma find_regex_registered [simp]:
  "registered (fst (find_regex regcomp opts (p, found))) = registered p"
  by (induction opts arbitrary: p found) auto

lemma init_username_match_default:
  "username_match (snd (mosquitto_plugin_init regcomp broker [])) =
     compile_into (regcomp default_regex)"
  by (simp add: mosquitto_plugin_init_def mosquitto_callback_register_def unloaded_def Let_def
      split: prod.splits)

lemma init_username_match_option:
  "username_match (snd (mosquitto_plugin_init regcomp broker [(''regex'', source)])) =
     compile_into (regcomp source)"
  by (simp add: mosquitto_plugin_init_def mosquitto_callback_register_def unloaded_def Let_def
      tolower_def split: prod.splits)

lemma init_shared_sub_match:
  "shared_sub_match (snd (mosquitto_plugin_init regcomp broker opts)) =
     compile_into (regcomp shared_sub_regex)"
  by (simp add: mosquitto_plugin_init_def mosquitto_callback_register_def Let_def
      split: prod.splits)

text \<open>The status of initialisation and the callbacks it leaves registered, in terms of the
  broker's answers alone.\<close>

lemma init_registration:
  "fst (mosquitto_plugin_init regcomp broker opts) =
     (if broker MOSQ_EVT_CONNECT \<noteq> 0 then broker MOSQ_EVT_CONNECT
      else if broker MOSQ_EVT_MESSAGE_IN \<noteq> 0 then broker MOSQ_EVT_MESSAGE_IN
      else if broker MOSQ_EVT_MESSAGE_OUT \<noteq> 0 then broker MOSQ_EVT_MESSAGE_OUT
      else if broker MOSQ_EVT_SUBSCRIBE \<noteq> 0 then broker MOSQ_EVT_SUBSCRIBE
      else broker MOSQ_EVT_UNSUBSCRIBE)
   \<and> registered (snd (mosquitto_plugin_init regcomp broker opts)) =
     (if broker MOSQ_EVT_CONNECT \<noteq> 0 then []
      else (MOSQ_EVT_CONNECT, Connect_callback) #
       (if broker MOSQ_EVT_MESSAGE_IN \<noteq> 0 then []
        else (MOSQ_EVT_MESSAGE_IN, Callback_message_in) #
         (if broker MOSQ_EVT_MESSAGE_OUT \<noteq> 0 then []
          else (MOSQ_EVT_MESSAGE_OUT, Callback_message_out) #
           (if broker MOSQ_EVT_SUBSCRIBE \<noteq> 0 then []
            else (MOSQ_EVT_SUBSCRIBE, Callback_subscribe) #
             (if broker MOSQ_EVT_UNSUBSCRIBE \<noteq> 0 then []
              else [(MOSQ_EVT_UNSUBSCRIBE, Callback_unsubscribe)])))))"
proof -
  obtain p found where f: "find_regex regcomp opts (unloaded, False) = (p, found)"
    by (cases "find_regex regcomp opts (unloaded, False)")
  have "registered (fst (find_regex regcomp opts (unloaded, False))) = registered unloaded"
    by simp
  then have "registered p = []"
    unfolding f by (simp add: unloaded_def)
  then show ?thesis
    using f
    by (simp add: mosquitto_plugin_init_def mosquitto_callback_register_def Let_def)
qed

lemma init_registers_all:
  assumes "\<And>event. broker event = 0"
  shows "fst (mosquitto_plugin_init regcomp broker opts) = MOSQ_ERR_SUCCESS \<and>
         registered (snd (mosquitto_plugin_init regcomp broker opts)) =
           [(MOSQ_EVT_CONNECT, Connect_callback), (MOSQ_EVT_MESSAGE_IN, Callback_message_in),
            (MOSQ_EVT_MESSAGE_OUT, Callback_message_out), (MOSQ_EVT_SUBSCRIBE, Callback_subscribe),
            (MOSQ_EVT_UNSUBSCRIBE, Callback_unsubscribe)]"
proof -
  obtain p found where f: "find_regex regcomp opts (unloaded, False) = (p, found)"
    by (cases "find_regex regcomp opts (unloaded, False)")
  have "registered (fst (find_regex regcomp opts (unloaded, False))) = registered unloaded"
    by simp
  then have "registered p = []"
    unfolding f by (simp add: unloaded_def)
  then show ?thesis
    using assms f
    by (simp add: mosquitto_plugin_init_def mosquitto_callback_register_def Let_def
        MOSQ_ERR_SUCCESS_def)
qed

lemma default_plugin_username_match:
  "username_match default_plugin = compile_into (regcomp_extended default_regex)"
  unfolding default_plugin_def by (rule init_username_match_default)

lemma default_plugin_shared_sub_match:
  "shared_sub_match default_plugin = compile_into (regcomp_extended shared_sub_regex)"
  unfolding default_plugin_def by (rule init_shared_sub_match)

lemma resolve_foo_bar: "get_team default_plugin serves_all ''foo@bar'' = Inr (Some ''bar'')"
  by code_simp

lemma resolve_no_at_sign: "get_team default_plugin serves_all ''no-at-sign'' = Inr None"
  by code_simp

subsection \<open>The message callbacks\<close>

lemma message_in_prepends:
  assumes "username (client ed) = Some user"
    and "get_team p mem user = Inr (Some team)"
    and "mem 1"
    and "c_string (topic ed)"
  shows "callback_message_in p mem ed =
           Inr (MOSQ_ERR_SUCCESS, ed\<lparr>topic := team @ ''/'' @ topic ed\<rparr>)"
  using assms get_team_c_string [OF assms(2)]
  by (simp add: callback_message_in_def seq_Inr mosquitto_calloc_def Let_def snprintf_calloc
      c_string_append c_string_slash sizeof_char_constant_def)

text \<open>
  The outcome of \<open>callback_message_out\<close> for a client with a team: the prefix is
  taken off exactly when something follows it.
\<close>

lemma message_out_outcome:
  assumes "username (client ed) = Some user"
    and "get_team p mem user = Inr (Some team)"
  shows "callback_message_out p mem ed =
     (if (\<exists>rest. rest \<noteq> [] \<and> topic ed = team @ ''/'' @ rest)
      then (if mem 1
            then Inr (MOSQ_ERR_SUCCESS, ed\<lparr>topic := drop (length team + 1) (topic ed)\<rparr>)
            else Inr (MOSQ_ERR_NOMEM, ed))
      else Inr (MOSQ_ERR_SUCCESS, ed))"
proof -
  have iff: "(\<exists>rest. rest \<noteq> [] \<and> topic ed = team @ ''/'' @ rest) \<longleftrightarrow>
     (\<not> length (topic ed) \<le> length team + 1
        \<and> take (length team) team = take (length team) (topic ed)
        \<and> topic ed ! length team = CHR ''/'')" (is "?L \<longleftrightarrow> ?R")
  proof
    assume ?L
    then show ?R by (auto simp: nth_append)
  next
    assume r: ?R
    then have t: "take (length team) (topic ed) = team" by simp
    from r have len: "length team + 1 < length (topic ed)" by simp
    have "topic ed = take (length team) (topic ed) @ drop (length team) (topic ed)" by simp
    also have "drop (length team) (topic ed) =
        topic ed ! length team # drop (Suc (length team)) (topic ed)"
      using len by (simp add: Cons_nth_drop_Suc)
    finally have "topic ed = team @ ''/'' @ drop (Suc (length team)) (topic ed)"
      using t r by simp
    moreover have "drop (Suc (length team)) (topic ed) \<noteq> []" using len by simp
    ultimately show ?L by blast
  qed
  show ?thesis
    unfolding iff using assms
    by (auto simp: callback_message_out_def seq_Inr strncmp_zero_iff mosquitto_strdup_def Let_def)
qed

subsection \<open>The subscription callbacks\<close>

text \<open>
  A shared filter that the pattern matches never gets through \<open>callback_subscribe\<close>:
  once the block for the rewritten filter is there, the callback runs into a null
  pointer (a refused \<open>share_group\<close> or \<open>topic\<close> block) or into the store at index
  \<open>topic_size + 1\<close> of the block of \<open>topic_size + 1\<close> bytes.
\<close>

lemma shared_branch_faults:
  assumes "username (sub_client ed) = Some user"
    and "get_team p mem user = Inr (Some team)"
    and "take 7 (topic_filter ed) = ''$share/''"
    and "mem 1"
    and "shared_sub_match p = Some preg"
    and "preg (topic_filter ed) = Some pm"
  shows "callback_subscribe p mem ed = Inl Null_pointer_access
       \<or> callback_subscribe p mem ed = Inl Out_of_bounds_access"
proof -
  have s: "strncmp (topic_filter ed) ''$share/'' 7 = 0"
    using assms(3) by (simp add: strncmp_zero_iff)
  obtain pmatch where r: "regexec preg (topic_filter ed) 3 = Some pmatch"
    using assms(6) by (simp add: regexec_def)
  show ?thesis
    unfolding callback_subscribe_def
    using assms(1,2,4,5) s r
    by (auto simp: seq_Inr Let_def mosquitto_calloc_def mosquitto_malloc_def strncpy_def
        store_def seq_def split: sum.splits option.splits if_splits)
qed

text \<open>
  A filter that does not begin with \<open>$share/\<close> gets team and slash in front, in
  \<open>callback_subscribe\<close> and in \<open>callback_unsubscribe\<close> alike.
\<close>

lemma subscribe_prepends:
  assumes "username (sub_client ed) = Some user"
    and "get_team p mem user = Inr (Some team)"
    and "take 7 (topic_filter ed) \<noteq> ''$share/''"
    and "mem 1"
    and "c_string (topic_filter ed)"
  shows "callback_subscribe p mem ed =
           Inr (MOSQ_ERR_SUCCESS, ed\<lparr>topic_filter := team @ ''/'' @ topic_filter ed\<rparr>)"
proof -
  have s: "strncmp (topic_filter ed) ''$share/'' 7 \<noteq> 0"
    using assms(3) by (simp add: strncmp_zero_iff)
  show ?thesis
    unfolding callback_subscribe_def
    using assms(1,2,4,5) s get_team_c_string [OF assms(2)]
    by (simp add: seq_Inr mosquitto_calloc_def Let_def snprintf_calloc
        c_string_append c_string_slash sizeof_char_constant_def)
qed

lemma unsubscribe_prepends:
  assumes "username (sub_client ed) = Some user"
    and "get_team p mem user = Inr (Some team)"
    and "take 7 (topic_filter ed) \<noteq> ''$share/''"
    and "mem 1"
    and "c_string (topic_filter ed)"
  shows "callback_unsubscribe p mem ed =
           Inr (MOSQ_ERR_SUCCESS, ed\<lparr>topic_filter := team @ ''/'' @ topic_filter ed\<rparr>)"
proof -
  have s: "strncmp (topic_filter ed) ''$share/'' 7 \<noteq> 0"
    using assms(3) by (simp add: strncmp_zero_iff)
  show ?thesis
    unfolding callback_unsubscribe_def
    using assms(1,2,4,5) s get_team_c_string [OF assms(2)]
    by (simp add: seq_Inr mosquitto_calloc_def Let_def snprintf_calloc
        c_string_append c_string_slash sizeof_char_constant_def)
qed

text \<open>
  \<open>callback_unsubscribe\<close> stores the terminator of \<open>topic\<close> at the same index
  (line 329) and runs into the same faults on a shared filter that the pattern
  matches.
\<close>

lemma unsubscribe_shared_branch_faults:
  assumes "username (sub_client ed) = Some user"
    and "get_team p mem user = Inr (Some team)"
    and "take 7 (topic_filter ed) = ''$share/''"
    and "mem 1"
    and "shared_sub_match p = Some preg"
    and "preg (topic_filter ed) = Some pm"
  shows "callback_unsubscribe p mem ed = Inl Null_pointer_access
       \<or> callback_unsubscribe p mem ed = Inl Out_of_bounds_access"
proof -
  have s: "strncmp (topic_filter ed) ''$share/'' 7 = 0"
    using assms(3) by (simp add: strncmp_zero_iff)
  obtain pmatch where r: "regexec preg (topic_filter ed) 3 = Some pmatch"
    using assms(6) by (simp add: regexec_def)
  show ?thesis
    unfolding callback_unsubscribe_def
    using assms(1,2,4,5) s r
    by (auto simp: seq_Inr Let_def mosquitto_calloc_def mosquitto_malloc_def strncpy_def
        store_def seq_def split: sum.splits option.splits if_splits)
qed

text \<open>
  The two callbacks have the same outcome in the model for every event. Where that
  outcome is a fault, this says nothing about what the C program hands to the
  broker: the behaviour is undefined there.
\<close>

lemma unsubscribe_same_outcome:
  "callback_unsubscribe p mem ed = callback_subscribe p mem ed"
  by (simp add: callback_unsubscribe_def callback_subscribe_def)

subsection \<open>The claims\<close>

text \<open>
  C1, amended. For every client whose username resolves to a team and every
  non-empty topic, \<open>callback_message_in\<close> turns the topic into team, slash, topic,
  and \<open>callback_message_out\<close> turns that back into the topic, both with success,
  when the allocator serves their requests. (The empty topic is excluded: see the
  counterexample below.)
\<close>

theorem message_round_trip:
  assumes "username (client ed) = Some user"
    and "get_team p mem_in user = Inr (Some team)"
    and "mem_in 1" and "mem_out 0" and "mem_out 1"
    and "c_string (topic ed)" and "topic ed \<noteq> []"
  shows "callback_message_in p mem_in ed =
           Inr (MOSQ_ERR_SUCCESS, ed\<lparr>topic := team @ ''/'' @ topic ed\<rparr>)
       \<and> callback_message_out p mem_out (ed\<lparr>topic := team @ ''/'' @ topic ed\<rparr>) =
           Inr (MOSQ_ERR_SUCCESS, ed)"
proof -
  have "mem_in 0"
    using assms(2) by (rule get_team_served)
  then have t: "get_team p mem_out user = Inr (Some team)"
    using assms(2,4) get_team_allocator [of mem_out mem_in p user] by simp
  have u: "username (client (ed\<lparr>topic := team @ ''/'' @ topic ed\<rparr>)) = Some user"
    using assms(1) by simp
  have "callback_message_out p mem_out (ed\<lparr>topic := team @ ''/'' @ topic ed\<rparr>) =
          Inr (MOSQ_ERR_SUCCESS, ed)"
    unfolding message_out_outcome [OF u t] using assms(5,7) by simp
  then show ?thesis
    using message_in_prepends [OF assms(1,2,3,6)] by simp
qed

text \<open>
  Witness for C1: the client \<open>foo@bar\<close> of the default plugin publishes to
  \<open>sensors/temp\<close>.
\<close>

theorem message_round_trip_witness:
  "get_team default_plugin serves_all ''foo@bar'' = Inr (Some ''bar'')
   \<and> callback_message_in default_plugin serves_all
       \<lparr>client = \<lparr>username = Some ''foo@bar'', client_id = ''client1''\<rparr>, topic = ''sensors/temp''\<rparr> =
     Inr (MOSQ_ERR_SUCCESS,
       \<lparr>client = \<lparr>username = Some ''foo@bar'', client_id = ''client1''\<rparr>,
        topic = ''bar/sensors/temp''\<rparr>)
   \<and> callback_message_out default_plugin serves_all
       \<lparr>client = \<lparr>username = Some ''foo@bar'', client_id = ''client1''\<rparr>,
        topic = ''bar/sensors/temp''\<rparr> =
     Inr (MOSQ_ERR_SUCCESS,
       \<lparr>client = \<lparr>username = Some ''foo@bar'', client_id = ''client1''\<rparr>, topic = ''sensors/temp''\<rparr>)"
  using message_round_trip [of
      "\<lparr>client = \<lparr>username = Some ''foo@bar'', client_id = ''client1''\<rparr>, topic = ''sensors/temp''\<rparr>"
      "''foo@bar''" default_plugin serves_all "''bar''" serves_all]
    resolve_foo_bar
  by (simp add: serves_all_def c_string_def NUL_def)

text \<open>
  Counterexample to C1 as stated (it includes the empty topic): for the client
  \<open>foo@bar\<close> the empty topic becomes \<open>bar/\<close> on the way in, and \<open>bar/\<close> stays \<open>bar/\<close>
  on the way out, because its length is not greater than that of the team plus one.
\<close>

theorem empty_topic_round_trip_counterexample:
  "callback_message_in default_plugin serves_all
       \<lparr>client = \<lparr>username = Some ''foo@bar'', client_id = ''client1''\<rparr>, topic = ''''\<rparr> =
     Inr (MOSQ_ERR_SUCCESS,
       \<lparr>client = \<lparr>username = Some ''foo@bar'', client_id = ''client1''\<rparr>, topic = ''bar/''\<rparr>)
   \<and> callback_message_out default_plugin serves_all
       \<lparr>client = \<lparr>username = Some ''foo@bar'', client_id = ''client1''\<rparr>, topic = ''bar/''\<rparr> =
     Inr (MOSQ_ERR_SUCCESS,
       \<lparr>client = \<lparr>username = Some ''foo@bar'', client_id = ''client1''\<rparr>, topic = ''bar/''\<rparr>)
   \<and> callback_message_out default_plugin serves_all
       \<lparr>client = \<lparr>username = Some ''foo@bar'', client_id = ''client1''\<rparr>, topic = ''bar/''\<rparr> \<noteq>
     Inr (MOSQ_ERR_SUCCESS,
       \<lparr>client = \<lparr>username = Some ''foo@bar'', client_id = ''client1''\<rparr>, topic = ''''\<rparr>)"
  by code_simp

text \<open>
  C2, amended. For every client whose username resolves to a team,
  \<open>callback_message_out\<close> removes team and slash from the front of the topic if the
  topic begins with them and goes on after them; in every other case, also for the
  topic that is exactly team and slash, it leaves the topic as it is. Where it
  removes the prefix and the allocator refuses the copy, the status is
  \<open>MOSQ_ERR_NOMEM\<close> and the topic stays.
\<close>

theorem message_out_strips_proper_prefix:
  assumes "username (client ed) = Some user"
    and "get_team p mem user = Inr (Some team)"
  shows "callback_message_out p mem ed =
     (if (\<exists>rest. rest \<noteq> [] \<and> topic ed = team @ ''/'' @ rest)
      then (if mem 1
            then Inr (MOSQ_ERR_SUCCESS, ed\<lparr>topic := drop (length team + 1) (topic ed)\<rparr>)
            else Inr (MOSQ_ERR_NOMEM, ed))
      else Inr (MOSQ_ERR_SUCCESS, ed))"
  using assms by (rule message_out_outcome)

text \<open>
  Witness for C2: for the client \<open>foo@bar\<close>, the topic \<open>bar/sensors/temp\<close> loses its
  prefix.
\<close>

theorem message_out_strips_proper_prefix_witness:
  "get_team default_plugin serves_all ''foo@bar'' = Inr (Some ''bar'')
   \<and> callback_message_out default_plugin serves_all
       \<lparr>client = \<lparr>username = Some ''foo@bar'', client_id = ''client1''\<rparr>,
        topic = ''bar/sensors/temp''\<rparr> =
     Inr (MOSQ_ERR_SUCCESS,
       \<lparr>client = \<lparr>username = Some ''foo@bar'', client_id = ''client1''\<rparr>, topic = ''sensors/temp''\<rparr>)"
proof -
  have "\<exists>rest. rest \<noteq> [] \<and> ''bar/sensors/temp'' = ''bar'' @ ''/'' @ rest"
    by (rule exI [of _ "''sensors/temp''"]) simp
  then show ?thesis
    using message_out_strips_proper_prefix [of
        "\<lparr>client = \<lparr>username = Some ''foo@bar'', client_id = ''client1''\<rparr>,
          topic = ''bar/sensors/temp''\<rparr>"
        "''foo@bar''" default_plugin serves_all "''bar''"]
      resolve_foo_bar
    by (simp add: serves_all_def)
qed

text \<open>
  Counterexample to C2 as stated: for the client \<open>foo@bar\<close> the topic \<open>bar/\<close> begins
  with team and slash, and is delivered unchanged, not as the empty topic.
\<close>

theorem message_out_exact_prefix_counterexample:
  "get_team default_plugin serves_all ''foo@bar'' = Inr (Some ''bar'')
   \<and> ''bar/'' = ''bar'' @ ''/'' @ ''''
   \<and> callback_message_out default_plugin serves_all
       \<lparr>client = \<lparr>username = Some ''foo@bar'', client_id = ''client1''\<rparr>, topic = ''bar/''\<rparr> =
     Inr (MOSQ_ERR_SUCCESS,
       \<lparr>client = \<lparr>username = Some ''foo@bar'', client_id = ''client1''\<rparr>, topic = ''bar/''\<rparr>)"
  by code_simp

text \<open>
  C3. The rewrite of a well-formed shared filter does not come about in the code:
  for the client \<open>foo@bar\<close> and the filter \<open>$share/g1/a/b/c\<close> the callback stores the
  terminator of \<open>topic\<close> at index \<open>topic_size + 1\<close> of a block of \<open>topic_size + 1\<close>
  bytes (line 254), one byte past its end, where line 252 uses index \<open>group_size\<close>
  for \<open>share_group\<close>.
\<close>

theorem subscribe_shared_filter_out_of_bounds:
  "callback_subscribe default_plugin serves_all
       \<lparr>sub_client = \<lparr>username = Some ''foo@bar'', client_id = ''client1''\<rparr>,
        topic_filter = ''$share/g1/a/b/c''\<rparr> =
     Inl Out_of_bounds_access"
  by code_simp

text \<open>
  C4. For every client whose username resolves to a team and every filter that
  begins with \<open>$share/\<close> and that the compiled pattern for shared subscriptions does
  not match, \<open>callback_subscribe\<close> and \<open>callback_unsubscribe\<close> both return
  \<open>MOSQ_ERR_NOMEM\<close> and leave the filter of the event as it was.
\<close>

theorem malformed_shared_filter_fails:
  assumes "username (sub_client ed) = Some user"
    and "get_team p mem user = Inr (Some team)"
    and "take 7 (topic_filter ed) = ''$share/''"
    and "shared_sub_match p = Some preg"
    and "preg (topic_filter ed) = None"
  shows "callback_subscribe p mem ed = Inr (MOSQ_ERR_NOMEM, ed)
       \<and> callback_unsubscribe p mem ed = Inr (MOSQ_ERR_NOMEM, ed)"
proof -
  have s: "strncmp (topic_filter ed) ''$share/'' 7 = 0"
    using assms(3) by (simp add: strncmp_zero_iff)
  have r: "regexec preg (topic_filter ed) 3 = None"
    using assms(5) by (simp add: regexec_def)
  have "callback_subscribe p mem ed = Inr (MOSQ_ERR_NOMEM, ed)"
    unfolding callback_subscribe_def using assms(1,2,4) s r
    by (simp add: seq_Inr Let_def mosquitto_calloc_def)
  moreover have "callback_unsubscribe p mem ed = Inr (MOSQ_ERR_NOMEM, ed)"
    unfolding callback_unsubscribe_def using assms(1,2,4) s r
    by (simp add: seq_Inr Let_def mosquitto_calloc_def)
  ultimately show ?thesis by simp
qed

text \<open>
  Witness for C4: the client \<open>foo@bar\<close> of the default plugin and the filter
  \<open>$share/onlygroup\<close>, which has no filter after the group.
\<close>

theorem malformed_shared_filter_fails_witness:
  "get_team default_plugin serves_all ''foo@bar'' = Inr (Some ''bar'')
   \<and> take 7 ''$share/onlygroup'' = ''$share/''
   \<and> callback_subscribe default_plugin serves_all
       \<lparr>sub_client = \<lparr>username = Some ''foo@bar'', client_id = ''client1''\<rparr>,
        topic_filter = ''$share/onlygroup''\<rparr> =
     Inr (MOSQ_ERR_NOMEM,
       \<lparr>sub_client = \<lparr>username = Some ''foo@bar'', client_id = ''client1''\<rparr>,
        topic_filter = ''$share/onlygroup''\<rparr>)
   \<and> callback_unsubscribe default_plugin serves_all
       \<lparr>sub_client = \<lparr>username = Some ''foo@bar'', client_id = ''client1''\<rparr>,
        topic_filter = ''$share/onlygroup''\<rparr> =
     Inr (MOSQ_ERR_NOMEM,
       \<lparr>sub_client = \<lparr>username = Some ''foo@bar'', client_id = ''client1''\<rparr>,
        topic_filter = ''$share/onlygroup''\<rparr>)"
proof -
  have "re_search
       (Cat Bol
         (Cat (Group 1
                (Cat (Chr CHR ''$'') (Cat (Chr CHR ''s'') (Cat (Chr CHR ''h'') (Cat (Chr CHR ''a'')
                  (Cat (Chr CHR ''r'') (Cat (Chr CHR ''e'') (Cat (Chr CHR ''/'')
                    (Cat (Bracket True [(CHR ''/'', CHR ''/'')])
                         (Loop (Bracket True [(CHR ''/'', CHR ''/'')])))))))))))
           (Cat (Chr CHR ''/'') (Cat (Group 2 (Cat Any (Loop Any))) Eol)))) 2 0
      ''$share/onlygroup'' = None"
    by code_simp
  then obtain preg where "shared_sub_match default_plugin = Some preg"
    and "preg ''$share/onlygroup'' = None"
    by (simp add: default_plugin_shared_sub_match regcomp_shared_sub_regex compile_into_def)
  then show ?thesis
    using malformed_shared_filter_fails [of
        "\<lparr>sub_client = \<lparr>username = Some ''foo@bar'', client_id = ''client1''\<rparr>,
          topic_filter = ''$share/onlygroup''\<rparr>"
        "''foo@bar''" default_plugin serves_all "''bar''" preg]
      resolve_foo_bar
    by simp
qed

text \<open>
  C5, amended. Initialisation does not look at what the compilation of a pattern
  returns. For every option list, the status of \<open>mosquitto_plugin_init\<close> and the
  callbacks it registers are the same whatever \<open>regcomp\<close> answers for the
  configured, the default and the shared-subscription pattern; when the broker
  accepts the registrations, the status is \<open>MOSQ_ERR_SUCCESS\<close> and all five
  callbacks are registered. A pattern from the option \<open>regex\<close> that fails to compile
  only leaves \<open>username_match\<close> without a compiled pattern.
\<close>

theorem init_ignores_compile_result:
  "fst (mosquitto_plugin_init regcomp broker opts) =
     fst (mosquitto_plugin_init regcomp' broker opts)
   \<and> registered (snd (mosquitto_plugin_init regcomp broker opts)) =
     registered (snd (mosquitto_plugin_init regcomp' broker opts))
   \<and> ((\<forall>event. broker event = 0) \<longrightarrow>
        fst (mosquitto_plugin_init regcomp broker opts) = MOSQ_ERR_SUCCESS
        \<and> registered (snd (mosquitto_plugin_init regcomp broker opts)) =
          [(MOSQ_EVT_CONNECT, Connect_callback), (MOSQ_EVT_MESSAGE_IN, Callback_message_in),
           (MOSQ_EVT_MESSAGE_OUT, Callback_message_out), (MOSQ_EVT_SUBSCRIBE, Callback_subscribe),
           (MOSQ_EVT_UNSUBSCRIBE, Callback_unsubscribe)])
   \<and> username_match (snd (mosquitto_plugin_init regcomp broker [(''regex'', source)])) =
     compile_into (regcomp source)"
proof -
  have "fst (mosquitto_plugin_init regcomp broker opts) =
      fst (mosquitto_plugin_init regcomp' broker opts)"
    using init_registration [of regcomp broker opts] init_registration [of regcomp' broker opts]
    by simp
  moreover have "registered (snd (mosquitto_plugin_init regcomp broker opts)) =
      registered (snd (mosquitto_plugin_init regcomp' broker opts))"
    using init_registration [of regcomp broker opts] init_registration [of regcomp' broker opts]
    by simp
  ultimately show ?thesis
    using init_registers_all [of broker regcomp opts]
    by (simp add: init_username_match_option)
qed

text \<open>
  Witness for C5: the option \<open>regex\<close> holds a bracket expression without its closing
  bracket.
\<close>

theorem init_ignores_compile_result_witness:
  "regcomp_extended ''[a-z'' = Inl REG_EBRACK
   \<and> fst (mosquitto_plugin_init regcomp_extended accepts_all [(''regex'', ''[a-z'')]) = MOSQ_ERR_SUCCESS
   \<and> registered (snd (mosquitto_plugin_init regcomp_extended accepts_all [(''regex'', ''[a-z'')])) =
     [(MOSQ_EVT_CONNECT, Connect_callback), (MOSQ_EVT_MESSAGE_IN, Callback_message_in),
      (MOSQ_EVT_MESSAGE_OUT, Callback_message_out), (MOSQ_EVT_SUBSCRIBE, Callback_subscribe),
      (MOSQ_EVT_UNSUBSCRIBE, Callback_unsubscribe)]
   \<and> username_match (snd (mosquitto_plugin_init regcomp_extended accepts_all [(''regex'', ''[a-z'')])) =
     None"
proof -
  have c: "regcomp_extended ''[a-z'' = Inl REG_EBRACK"
    by (simp add: regcomp_extended_def bracket_def opens_class_def)
  have "\<forall>event. accepts_all event = 0"
    by (simp add: accepts_all_def)
  then show ?thesis
    using c init_ignores_compile_result [of regcomp_extended accepts_all
        "[(''regex'', ''[a-z'')]" regcomp_extended "''[a-z''"]
    by (simp add: compile_into_def)
qed

text \<open>
  Counterexample to C5 as stated: the pattern \<open>(\<close> does not compile, and
  initialisation with it returns success with the five callbacks registered and no
  compiled username pattern.
\<close>

theorem init_malformed_pattern_counterexample:
  "regcomp_extended ''('' = Inl REG_EPAREN
   \<and> fst (mosquitto_plugin_init regcomp_extended accepts_all [(''regex'', ''('')]) = MOSQ_ERR_SUCCESS
   \<and> registered (snd (mosquitto_plugin_init regcomp_extended accepts_all [(''regex'', ''('')])) =
     [(MOSQ_EVT_CONNECT, Connect_callback), (MOSQ_EVT_MESSAGE_IN, Callback_message_in),
      (MOSQ_EVT_MESSAGE_OUT, Callback_message_out), (MOSQ_EVT_SUBSCRIBE, Callback_subscribe),
      (MOSQ_EVT_UNSUBSCRIBE, Callback_unsubscribe)]
   \<and> username_match (snd (mosquitto_plugin_init regcomp_extended accepts_all [(''regex'', ''('')])) =
     None"
proof -
  have c: "regcomp_extended ''('' = Inl REG_EPAREN"
    by (simp add: regcomp_extended_def)
  show ?thesis
    using c init_registers_all [of accepts_all regcomp_extended "[(''regex'', ''('')]"]
    by (simp add: init_username_match_option compile_into_def accepts_all_def)
qed

text \<open>
  C6. When the client has no username, or its username has no team (the username
  pattern does not match it), each of the five callbacks returns
  \<open>MOSQ_ERR_SUCCESS\<close> and leaves its event, with the client identifier, the topic
  or the filter, exactly as it was.
\<close>

theorem no_team_passes_through:
  assumes "username c = None \<or> (\<exists>user. username c = Some user \<and> get_team p mem user = Inr None)"
  shows "connect_callback p mem \<lparr>client = c, topic = t\<rparr> =
           Inr (MOSQ_ERR_SUCCESS, \<lparr>client = c, topic = t\<rparr>)
       \<and> callback_message_in p mem \<lparr>client = c, topic = t\<rparr> =
           Inr (MOSQ_ERR_SUCCESS, \<lparr>client = c, topic = t\<rparr>)
       \<and> callback_message_out p mem \<lparr>client = c, topic = t\<rparr> =
           Inr (MOSQ_ERR_SUCCESS, \<lparr>client = c, topic = t\<rparr>)
       \<and> callback_subscribe p mem \<lparr>sub_client = c, topic_filter = f\<rparr> =
           Inr (MOSQ_ERR_SUCCESS, \<lparr>sub_client = c, topic_filter = f\<rparr>)
       \<and> callback_unsubscribe p mem \<lparr>sub_client = c, topic_filter = f\<rparr> =
           Inr (MOSQ_ERR_SUCCESS, \<lparr>sub_client = c, topic_filter = f\<rparr>)"
  using assms
  by (auto simp: connect_callback_def callback_message_in_def callback_message_out_def
      callback_subscribe_def callback_unsubscribe_def seq_Inr Let_def)

text \<open>
  Witness for C6: a client without a username, and the client \<open>no-at-sign\<close> of the
  default plugin.
\<close>

theorem no_team_passes_through_witness:
  "get_team default_plugin serves_all ''no-at-sign'' = Inr None
   \<and> callback_message_in default_plugin serves_all
       \<lparr>client = \<lparr>username = Some ''no-at-sign'', client_id = ''client1''\<rparr>, topic = ''sensors/temp''\<rparr> =
     Inr (MOSQ_ERR_SUCCESS,
       \<lparr>client = \<lparr>username = Some ''no-at-sign'', client_id = ''client1''\<rparr>, topic = ''sensors/temp''\<rparr>)
   \<and> callback_subscribe default_plugin serves_all
       \<lparr>sub_client = \<lparr>username = None, client_id = ''client2''\<rparr>, topic_filter = ''$share/g1/a''\<rparr> =
     Inr (MOSQ_ERR_SUCCESS,
       \<lparr>sub_client = \<lparr>username = None, client_id = ''client2''\<rparr>, topic_filter = ''$share/g1/a''\<rparr>)"
  using no_team_passes_through [of "\<lparr>username = Some ''no-at-sign'', client_id = ''client1''\<rparr>"
      default_plugin serves_all "''sensors/temp''" "''x''"]
    no_team_passes_through [of "\<lparr>username = None, client_id = ''client2''\<rparr>"
      default_plugin serves_all "''x''" "''$share/g1/a''"]
    resolve_no_at_sign
  by simp

text \<open>
  C7. After an initialisation without options on top of the modelled \<open>regcomp\<close>,
  whatever the broker answers, \<open>get_team\<close> returns the team \<open>bar\<close> for the username
  \<open>foo@bar\<close> (when the allocator serves its request) and no team for the username
  \<open>no-at-sign\<close>.
\<close>

theorem default_pattern_extraction:
  assumes "mem 0"
  shows "get_team (snd (mosquitto_plugin_init regcomp_extended broker [])) mem ''foo@bar'' =
           Inr (Some ''bar'')
       \<and> get_team (snd (mosquitto_plugin_init regcomp_extended broker [])) mem ''no-at-sign'' =
           Inr None"
proof -
  have m: "mem 0 = serves_all 0"
    using assms by (simp add: serves_all_def)
  have p: "username_match (snd (mosquitto_plugin_init regcomp_extended broker [])) =
      username_match default_plugin"
    by (simp add: init_username_match_default default_plugin_username_match)
  show ?thesis
    using resolve_foo_bar resolve_no_at_sign
    by (simp add: get_team_pattern [OF p] get_team_allocator [of mem serves_all, OF m])
qed

text \<open>Witness for C7: the allocator that serves every request, the broker that accepts
  every registration.\<close>

theorem default_pattern_extraction_witness:
  "serves_all 0
   \<and> get_team (snd (mosquitto_plugin_init regcomp_extended accepts_all [])) serves_all ''foo@bar'' =
       Inr (Some ''bar'')
   \<and> get_team (snd (mosquitto_plugin_init regcomp_extended accepts_all [])) serves_all ''no-at-sign'' =
       Inr None"
  using default_pattern_extraction [of serves_all accepts_all]
  by (simp add: serves_all_def)

text \<open>
  C8. The unsubscribe rewrite mirrors the subscribe rewrite where the code gets as
  far as a result: the plain prepend and the refusal of a malformed shared filter
  are the same in both callbacks. On a shared filter that the pattern matches it
  does not: for the client \<open>dev@acme\<close> and the filter \<open>$share/grp/sensors/#\<close> both
  callbacks store the terminator of \<open>topic\<close> one byte past the end of its block
  (lines 254 and 329) and leave the byte before it unwritten, so that neither hands
  a defined filter to the broker and the two filters need not be equal.
\<close>

theorem unsubscribe_shared_filter_out_of_bounds:
  "get_team default_plugin serves_all ''dev@acme'' = Inr (Some ''acme'')
   \<and> callback_subscribe default_plugin serves_all
       \<lparr>sub_client = \<lparr>username = Some ''dev@acme'', client_id = ''client1''\<rparr>,
        topic_filter = ''$share/grp/sensors/#''\<rparr> =
     Inl Out_of_bounds_access
   \<and> callback_unsubscribe default_plugin serves_all
       \<lparr>sub_client = \<lparr>username = Some ''dev@acme'', client_id = ''client1''\<rparr>,
        topic_filter = ''$share/grp/sensors/#''\<rparr> =
     Inl Out_of_bounds_access"
  by code_simp

text \<open>
  C9, amended. With the default pattern, every team that \<open>get_team\<close> returns is a
  non-empty string. (For a configured pattern it can be empty: see the
  counterexample below.)
\<close>

theorem default_pattern_team_nonempty:
  assumes "username_match p = compile_into (regcomp_extended default_regex)"
    and "get_team p mem user = Inr (Some team)"
  shows "team \<noteq> []"
proof -
  from get_team_matched [OF assms(2)] obtain preg pm
    where preg: "username_match p = Some preg" and pm: "preg user = Some pm"
    by blast
  from preg assms(1) have "regcomp_extended default_regex = Inr preg"
    by (cases "regcomp_extended default_regex") (simp_all add: compile_into_def)
  with pm regcomp_default_regex obtain so eo
    where "length pm = 2" "pm ! 1 = (int so, int eo)" "so < eo" "so < length user"
      "user ! so \<noteq> NUL"
    using default_group_offsets [of user pm] by auto
  with pm show ?thesis
    using preg assms(2) by (intro get_team_nonempty [of preg user pm so eo p mem team])
qed

text \<open>Witness for C9: the username \<open>foo@bar\<close> and the default plugin.\<close>

theorem default_pattern_team_nonempty_witness:
  "username_match default_plugin = compile_into (regcomp_extended default_regex)
   \<and> get_team default_plugin serves_all ''foo@bar'' = Inr (Some ''bar'')
   \<and> ''bar'' \<noteq> []"
  using default_pattern_team_nonempty [of default_plugin serves_all "''foo@bar''" "''bar''"]
    default_plugin_username_match resolve_foo_bar
  by simp

text \<open>
  Counterexample to C9 as stated: with the configured pattern
  \<open>^[a-z0-9]+@([a-z0-9]*)$\<close> the username \<open>foo@\<close> matches and its team is the empty
  string.
\<close>

theorem configured_pattern_empty_team_counterexample:
  "get_team
     (snd (mosquitto_plugin_init regcomp_extended accepts_all
        [(''regex'', ''^[a-z0-9]+@([a-z0-9]*)$'')]))
     serves_all ''foo@'' = Inr (Some [])"
  by code_simp

text \<open>
  C10. For every client whose username resolves to a team, \<open>callback_message_out\<close>
  leaves every topic of at most the length of the team plus one as it is, with
  success; so the topic that is exactly team and slash is passed on unchanged, and
  a topic that is not empty is never turned into the empty topic.
\<close>

theorem message_out_keeps_short_topics:
  assumes "username (client ed) = Some user"
    and "get_team p mem user = Inr (Some team)"
  shows "(length (topic ed) \<le> length team + 1 \<longrightarrow>
            callback_message_out p mem ed = Inr (MOSQ_ERR_SUCCESS, ed))
       \<and> callback_message_out p mem (ed\<lparr>topic := team @ ''/''\<rparr>) =
            Inr (MOSQ_ERR_SUCCESS, ed\<lparr>topic := team @ ''/''\<rparr>)
       \<and> (\<forall>rc ed'. callback_message_out p mem ed = Inr (rc, ed') \<longrightarrow> topic ed \<noteq> [] \<longrightarrow>
            topic ed' \<noteq> [])"
proof -
  have u: "username (client (ed\<lparr>topic := team @ ''/''\<rparr>)) = Some user"
    using assms(1) by simp
  have a: "length (topic ed) \<le> length team + 1 \<longrightarrow>
      callback_message_out p mem ed = Inr (MOSQ_ERR_SUCCESS, ed)"
    unfolding message_out_outcome [OF assms] by auto
  have b: "callback_message_out p mem (ed\<lparr>topic := team @ ''/''\<rparr>) =
      Inr (MOSQ_ERR_SUCCESS, ed\<lparr>topic := team @ ''/''\<rparr>)"
    unfolding message_out_outcome [OF u assms(2)] by simp
  have c: "\<forall>rc ed'. callback_message_out p mem ed = Inr (rc, ed') \<longrightarrow> topic ed \<noteq> [] \<longrightarrow>
      topic ed' \<noteq> []"
    unfolding message_out_outcome [OF assms] by (auto split: if_splits)
  from a b c show ?thesis by blast
qed

text \<open>Witness for C10: the client \<open>foo@bar\<close> and the topic \<open>bar/\<close>.\<close>

theorem message_out_keeps_short_topics_witness:
  "get_team default_plugin serves_all ''foo@bar'' = Inr (Some ''bar'')
   \<and> length ''bar/'' \<le> length ''bar'' + 1
   \<and> callback_message_out default_plugin serves_all
       \<lparr>client = \<lparr>username = Some ''foo@bar'', client_id = ''client1''\<rparr>, topic = ''bar/''\<rparr> =
     Inr (MOSQ_ERR_SUCCESS,
       \<lparr>client = \<lparr>username = Some ''foo@bar'', client_id = ''client1''\<rparr>, topic = ''bar/''\<rparr>)"
  using message_out_keeps_short_topics [of
      "\<lparr>client = \<lparr>username = Some ''foo@bar'', client_id = ''client1''\<rparr>, topic = ''bar/''\<rparr>"
      "''foo@bar''" default_plugin serves_all "''bar''"]
    resolve_foo_bar
  by simp

end
